theory Spec2Isabelle
  imports Complex_Main
begin

section \<open>Data model\<close>

subsection \<open>Enemy (js/game\_objects/enemy.js)\<close>

text \<open>
  The fields of the \<open>Enemy\<close> class that the game logic reads and writes. Health and
  damage are the integral numbers the levels and the range action use; \<open>speed\<close> and
  \<open>moveCooldown\<close> (fractional seconds) only drive the movement timing and are left out.
\<close>

record enemy =
  e_id :: string
  e_x :: int
  e_y :: int
  e_char :: string
  e_type :: string
  e_health :: int
  e_state :: string

text \<open>
  \<^verbatim>\<open>takeDamage(amount) { this.health -= amount; this.health = Math.max(0, this.health);
     if (this.health === 0) { this.state = 'defeated'; } }\<close>
\<close>

definition takeDamage :: "int \<Rightarrow> enemy \<Rightarrow> enemy" where
  "takeDamage amount e =
     (let e1 = e\<lparr>e_health := e_health e - amount\<rparr>;
          e2 = e1\<lparr>e_health := max 0 (e_health e1)\<rparr>
      in if e_health e2 = 0 then e2\<lparr>e_state := ''defeated''\<rparr> else e2)"

text \<open>\<^verbatim>\<open>isDefeated() { return this.health <= 0; }\<close>\<close>

definition isDefeated :: "enemy \<Rightarrow> bool" where
  "isDefeated e = (e_health e \<le> 0)"

text \<open>A chaser as the first level spawns it: health 2, at \<open>(15, 2)\<close>.\<close>

definition chaser :: enemy where
  "chaser = \<lparr>e_id = ''enemy-0'', e_x = 15, e_y = 2, e_char = ''C'', e_type = ''chaser'',
             e_health = 2, e_state = ''chasing''\<rparr>"

subsection \<open>Tiles and levels (js/game\_logic/levelManager.js)\<close>

text \<open>
  A tile is the object \<^verbatim>\<open>{ char, type, requiredWord?, isWordStart?, isPartOfWord? }\<close>; the
  kind is the string in \<open>type\<close>. A level holds \<open>tiles[y][x]\<close> with its \<open>width\<close> and
  \<open>height\<close>.
\<close>

record tile =
  t_char :: string
  t_type :: string
  t_requiredWord :: "string option"
  t_isWordStart :: bool
  t_isPartOfWord :: bool

record level =
  lv_id :: int
  lv_width :: int
  lv_height :: int
  lv_tiles :: "tile list list"

text \<open>Partial tile data, as in \<^verbatim>\<open>{ char: '.', type: 'pathway' }\<close>.\<close>

record tileData =
  d_char :: "string option"
  d_type :: "string option"

text \<open>
  The grid invariant of the level definitions: \<open>height\<close> rows of \<open>width\<close> tiles each
  (\<open>_createEmptyGrid\<close>).
\<close>

definition rectangular :: "level \<Rightarrow> bool" where
  "rectangular l =
     (0 \<le> lv_width l \<and> 0 \<le> lv_height l \<and> length (lv_tiles l) = nat (lv_height l)
      \<and> list_all (\<lambda>row. length row = nat (lv_width l)) (lv_tiles l))"

subsection \<open>Commands and the input handler's state (js/input/inputHandler.js)\<close>

text \<open>The value of \<open>parseInt\<close>: a number or \<open>NaN\<close>.\<close>

datatype number = Finite int | NaN

text \<open>
  The command objects queued in navigation mode, by shape:
  \<^verbatim>\<open>{type:'MOVE', direction, count}\<close>, \<^verbatim>\<open>{type:'MOVE_TO', target, count}\<close>,
  \<^verbatim>\<open>{type:'DELETE'|'CHANGE'|'YANK', motion, count}\<close>, \<^verbatim>\<open>{type, count}\<close> for the simple
  commands, \<^verbatim>\<open>{type:'REPLACE_CHAR_EXECUTE', char}\<close> and \<^verbatim>\<open>{type:'CLEAR_BUFFER'}\<close>.
\<close>

datatype command =
    MOVE string number
  | MOVE_TO string number
  | OPERATOR string string number
  | SIMPLE string number
  | REPLACE_CHAR_EXECUTE string
  | CLEAR_BUFFER

datatype input_mode = NORMAL | TYPING

text \<open>
  The callbacks the game modes register with \<open>registerActionListener\<close>: each closure is
  named by the mode and action that registers it; \<open>runListener\<close> below is its body.
\<close>

datatype listener =
    MenuConfirm | PlayingPause | PausedUnpause
  | GameOverConfirm | GameOverMenu | LevelCompleteConfirm | LevelCompleteMenu

record inputHandler =
  ih_active :: bool
  ih_mode :: input_mode
  ih_commandBuffer :: string
  ih_numericPrefix :: string
  ih_targetTypingPhrase :: string
  ih_currentTypingIndex :: nat
  ih_commandQueue :: "command list"
  ih_actionListeners :: "string \<rightharpoonup> listener"

subsection \<open>Player (js/game\_objects/player.js)\<close>

record player =
  p_x :: int
  p_y :: int
  p_score :: int
  p_currentLevelGrid :: "level option"

record position =
  pos_x :: int
  pos_y :: int

text \<open>The target of a range action, \<^verbatim>\<open>{ startX, startY, endX, endY }\<close>, and the action request.\<close>

record target =
  startX :: int
  startY :: int
  endX :: int
  endY :: int

record action =
  a_type :: string
  a_target :: target
  a_cost :: int

subsection \<open>The game: state manager, modes and collaborators (js/core/stateManager.js)\<close>

text \<open>
  What a read \<open>this.states[stateName]\<close> can give: one of the six mode instances of the
  constructor's table, or, for a name that the object literal inherits from
  \<open>Object.prototype\<close>, the inherited function or object, which is no mode and has neither
  \<open>enter\<close> nor \<open>exit\<close>.
\<close>

datatype state_object =
    MENU | LOADING | PLAYING | PAUSED | GAME_OVER | LEVEL_COMPLETE
  | Inherited string

text \<open>
  The \<open>params\<close> object of a transition: \<^verbatim>\<open>{ levelId?, levelData?, score?, nextLevelId? }\<close>.
\<close>

record params =
  pr_levelId :: "int option"
  pr_levelData :: "level option"
  pr_score :: "int option"
  pr_nextLevelId :: "int option"

text \<open>
  Presentation is outside the game logic: the calls made on the renderer and the UI manager
  are recorded in order, with the text of a message kept as its template and arguments.
\<close>

datatype message =
    Text string
  | ClearedNodes int
  | IntegrityFailure int
  | ProceedToStream int
  | StreamComplete int

datatype ui_call =
    ClearAll
  | HideElement string
  | ShowElement string
  | UpdateLevelName message
  | UpdateScoreBlank
  | UpdateScore int
  | ShowMessage message int
  | ClearMessage

datatype console_error = UnknownState string

datatype error = MenuStateNotDefined | TypeError

text \<open>
  One record for the state manager, its six mode instances (fields \<open>pl_\<close> of
  \<open>PlayingState\<close>, \<open>go_\<close> of \<open>GameOverState\<close>, \<open>lc_\<close> of \<open>LevelCompleteState\<close>;
  the other modes have no fields in the source) and the shared dependencies.
\<close>

record game =
  sm_states :: "string \<rightharpoonup> state_object"
  sm_currentState :: "state_object option"
  sm_currentStateName :: "string option"
  sm_previousStateName :: "string option"
  inputHandler :: inputHandler
  player :: player
  uiCalls :: "ui_call list"
  consoleErrors :: "console_error list"
  pl_currentLevel :: "level option"
  pl_elapsedTime :: real
  pl_enemies :: "enemy list"
  go_finalScore :: int
  go_levelId :: int
  lc_finalScore :: int
  lc_nextLevelId :: "int option"
  lc_currentLevelId :: "int option"

section \<open>Input handler: mode, buffer and listeners\<close>

text \<open>
  \<^verbatim>\<open>setActive(isActive)\<close>: deactivating clears the buffer, the prefix and the queue.
\<close>

definition setActive :: "bool \<Rightarrow> inputHandler \<Rightarrow> inputHandler" where
  "setActive isActive h =
     (let h1 = h\<lparr>ih_active := isActive\<rparr>
      in if \<not> isActive
         then h1\<lparr>ih_commandBuffer := [], ih_numericPrefix := [], ih_commandQueue := []\<rparr>
         else h1)"

text \<open>
  \<^verbatim>\<open>setMode(newMode, options = {})\<close>: nothing when the mode is unchanged; otherwise the
  buffer and prefix are cleared and the typing target is \<open>options.targetPhrase || ''\<close> in
  typing mode, empty in navigation mode.
\<close>

definition setMode :: "input_mode \<Rightarrow> string option \<Rightarrow> inputHandler \<Rightarrow> inputHandler" where
  "setMode newMode targetPhrase h =
     (if ih_mode h = newMode then h
      else
        let h1 = h\<lparr>ih_mode := newMode, ih_commandBuffer := [], ih_numericPrefix := []\<rparr>
        in if newMode = TYPING
           then h1\<lparr>ih_targetTypingPhrase := (case targetPhrase of None \<Rightarrow> [] | Some ph \<Rightarrow> ph),
                   ih_currentTypingIndex := 0\<rparr>
           else h1\<lparr>ih_targetTypingPhrase := [], ih_currentTypingIndex := 0\<rparr>)"

definition registerActionListener :: "string \<Rightarrow> listener \<Rightarrow> inputHandler \<Rightarrow> inputHandler" where
  "registerActionListener actionName callback h =
     h\<lparr>ih_actionListeners := (ih_actionListeners h)(actionName \<mapsto> callback)\<rparr>"

definition unregisterActionListener :: "string \<Rightarrow> inputHandler \<Rightarrow> inputHandler" where
  "unregisterActionListener actionName h =
     h\<lparr>ih_actionListeners := (ih_actionListeners h)(actionName := None)\<rparr>"

definition clearCommandBuffer :: "inputHandler \<Rightarrow> inputHandler" where
  "clearCommandBuffer h = h\<lparr>ih_commandBuffer := [], ih_numericPrefix := []\<rparr>"

text \<open>\<^verbatim>\<open>queueCommand(command) { if (command) this.commandQueue.push(command); }\<close>\<close>

definition queueCommand :: "command option \<Rightarrow> inputHandler \<Rightarrow> inputHandler" where
  "queueCommand command h =
     (case command of
        None \<Rightarrow> h
      | Some c \<Rightarrow> h\<lparr>ih_commandQueue := ih_commandQueue h @ [c]\<rparr>)"

text \<open>
  Calls on the shared dependencies, made from a mode; \<open>steps\<close> runs a method body's
  statements in order.
\<close>

definition onInput :: "(inputHandler \<Rightarrow> inputHandler) \<Rightarrow> game \<Rightarrow> game" where
  "onInput f g = g\<lparr>inputHandler := f (inputHandler g)\<rparr>"

definition ui :: "ui_call \<Rightarrow> game \<Rightarrow> game" where
  "ui c g = g\<lparr>uiCalls := uiCalls g @ [c]\<rparr>"

definition steps :: "('s \<Rightarrow> 's) list \<Rightarrow> 's \<Rightarrow> 's" where
  "steps fs s = fold (\<lambda>f t. f t) fs s"

section \<open>Game modes and the state manager\<close>

text \<open>
  \<open>x || d\<close> on an optional number: \<open>undefined\<close> and \<open>0\<close> are falsy.
\<close>

definition orElse :: "int option \<Rightarrow> int \<Rightarrow> int" where
  "orElse v d = (case v of None \<Rightarrow> d | Some n \<Rightarrow> if n = 0 then d else n)"

definition noParams :: params where
  "noParams = \<lparr>pr_levelId = None, pr_levelData = None, pr_score = None, pr_nextLevelId = None\<rparr>"

text \<open>
  \<open>enter(params)\<close> and \<open>exit()\<close> of each mode, statement by statement as the source has
  them. The source of \<open>LoadingState\<close> elides the bodies of its \<open>enter\<close> and \<open>exit\<close>, and
  \<open>PlayingState.enter\<close> elides its level, UI, renderer and player set-up; what is written
  there is modelled, nothing is invented for the elided parts. \<open>INPUT_MODE\<close> is the
  constant of the input handler (the imports of the state manager are elided too).
\<close>

definition enterMenu :: "game \<Rightarrow> game" where
  "enterMenu =
     steps [ui ClearAll,
            ui (HideElement ''commandBuffer''),
            ui (HideElement ''integrityContainer''),
            ui (HideElement ''cpuCyclesContainer''),
            ui (UpdateLevelName (Text ''MAIN MENU'')),
            ui UpdateScoreBlank,
            ui (ShowMessage (Text ''Press [Enter] to Start'') 0),
            onInput (setActive True),
            onInput (setMode NORMAL None),
            onInput (registerActionListener ''confirm'' MenuConfirm)]"

definition exitMenu :: "game \<Rightarrow> game" where
  "exitMenu =
     steps [onInput (unregisterActionListener ''confirm''),
            ui ClearMessage,
            ui (ShowElement ''integrityContainer''),
            ui (ShowElement ''cpuCyclesContainer'')]"

definition enterLoading :: "params \<Rightarrow> game \<Rightarrow> game" where
  "enterLoading ps g = g"

definition exitLoading :: "game \<Rightarrow> game" where
  "exitLoading g = g"

definition enterPlaying :: "params \<Rightarrow> game \<Rightarrow> game" where
  "enterPlaying ps =
     steps [\<lambda>g. g\<lparr>pl_enemies := []\<rparr>,
            onInput (setActive True),
            onInput (setMode NORMAL None),
            onInput clearCommandBuffer,
            onInput (registerActionListener ''pause'' PlayingPause)]"

definition exitPlaying :: "game \<Rightarrow> game" where
  "exitPlaying =
     steps [onInput (setActive False),
            onInput (unregisterActionListener ''pause''),
            \<lambda>g. g\<lparr>pl_enemies := []\<rparr>]"

definition enterPaused :: "game \<Rightarrow> game" where
  "enterPaused =
     steps [onInput (setActive True),
            onInput clearCommandBuffer,
            ui (ShowMessage (Text ''PAUSED - Press [Escape] to Resume'') 0),
            onInput (registerActionListener ''unpause'' PausedUnpause)]"

definition exitPaused :: "game \<Rightarrow> game" where
  "exitPaused =
     steps [onInput (unregisterActionListener ''unpause''),
            ui ClearMessage,
            onInput (setActive True)]"

definition enterGameOver :: "params \<Rightarrow> game \<Rightarrow> game" where
  "enterGameOver ps =
     steps [\<lambda>g. g\<lparr>go_finalScore := orElse (pr_score ps) 0\<rparr>,
            \<lambda>g. g\<lparr>go_levelId := orElse (pr_levelId ps) 1\<rparr>,
            ui ClearAll,
            ui (HideElement ''commandBuffer''),
            ui (UpdateLevelName (Text ''GAME OVER'')),
            \<lambda>g. ui (UpdateScore (go_finalScore g)) g,
            \<lambda>g. ui (ShowMessage (IntegrityFailure (go_levelId g)) 0) g,
            onInput (setActive True),
            onInput (registerActionListener ''confirm'' GameOverConfirm),
            onInput (registerActionListener ''menu'' GameOverMenu)]"

definition exitGameOver :: "game \<Rightarrow> game" where
  "exitGameOver =
     steps [onInput (unregisterActionListener ''confirm''),
            onInput (unregisterActionListener ''menu''),
            ui ClearMessage,
            ui (ShowElement ''commandBuffer'')]"

text \<open>
  \<^verbatim>\<open>this.nextLevelId = params?.nextLevelId || null\<close>: absent and \<open>0\<close> both give \<open>null\<close>.
\<close>

definition enterLevelComplete :: "params \<Rightarrow> game \<Rightarrow> game" where
  "enterLevelComplete ps =
     steps [\<lambda>g. g\<lparr>lc_finalScore := orElse (pr_score ps) 0\<rparr>,
            \<lambda>g. g\<lparr>lc_nextLevelId :=
                     (case pr_nextLevelId ps of None \<Rightarrow> None
                      | Some n \<Rightarrow> if n = 0 then None else Some n)\<rparr>,
            \<lambda>g. g\<lparr>lc_currentLevelId := Some (orElse (pr_levelId ps) 0)\<rparr>,
            ui ClearAll,
            ui (HideElement ''commandBuffer''),
            \<lambda>g. ui (UpdateLevelName (StreamComplete (orElse (lc_currentLevelId g) 0))) g,
            \<lambda>g. ui (UpdateScore (lc_finalScore g)) g,
            \<lambda>g. ui (ShowMessage
                       (case lc_nextLevelId g of
                          Some n \<Rightarrow> ProceedToStream n
                        | None \<Rightarrow> Text ''All Streams Complete! [M]=Menu'') 0) g,
            onInput (setActive True),
            onInput (registerActionListener ''confirm'' LevelCompleteConfirm),
            onInput (registerActionListener ''menu'' LevelCompleteMenu)]"

definition exitLevelComplete :: "game \<Rightarrow> game" where
  "exitLevelComplete =
     steps [onInput (unregisterActionListener ''confirm''),
            onInput (unregisterActionListener ''menu''),
            ui ClearMessage,
            ui (ShowElement ''commandBuffer'')]"

text \<open>
  Dispatch of \<open>this.currentState.enter(params)\<close> and \<open>this.currentState.exit()\<close>, each
  behind its test \<open>typeof ... === 'function'\<close>: an inherited object has neither method and
  nothing runs.
\<close>

fun enter :: "state_object \<Rightarrow> params \<Rightarrow> game \<Rightarrow> game" where
  "enter MENU ps = enterMenu"
| "enter LOADING ps = enterLoading ps"
| "enter PLAYING ps = enterPlaying ps"
| "enter PAUSED ps = enterPaused"
| "enter GAME_OVER ps = enterGameOver ps"
| "enter LEVEL_COMPLETE ps = enterLevelComplete ps"
| "enter (Inherited name) ps = (\<lambda>g. g)"

fun exit :: "state_object \<Rightarrow> game \<Rightarrow> game" where
  "exit MENU = exitMenu"
| "exit LOADING = exitLoading"
| "exit PLAYING = exitPlaying"
| "exit PAUSED = exitPaused"
| "exit GAME_OVER = exitGameOver"
| "exit LEVEL_COMPLETE = exitLevelComplete"
| "exit (Inherited name) = (\<lambda>g. g)"

text \<open>
  The table \<open>this.states\<close> built by the constructor, an object literal with the six mode
  names as its own keys. The constructor leaves no mode active; \<open>init\<close> makes the first
  transition.
\<close>

definition knownStates :: "string \<rightharpoonup> state_object" where
  "knownStates =
     [''MENU'' \<mapsto> MENU, ''LOADING'' \<mapsto> LOADING, ''PLAYING'' \<mapsto> PLAYING,
      ''PAUSED'' \<mapsto> PAUSED, ''GAME_OVER'' \<mapsto> GAME_OVER,
      ''LEVEL_COMPLETE'' \<mapsto> LEVEL_COMPLETE]"

text \<open>
  The read \<open>obj[name]\<close> on an object literal: an own key gives its value; a name of
  \<open>Object.prototype\<close> gives the inherited value, which is truthy; any other name gives
  \<open>undefined\<close>. (The key tables of the parser are read with the values of
  \<open>KeyboardEvent.key\<close>, none of which is such a name.)
\<close>

definition objectPrototypeNames :: "string list" where
  "objectPrototypeNames =
     [''constructor'', ''hasOwnProperty'', ''isPrototypeOf'', ''propertyIsEnumerable'',
      ''toLocaleString'', ''toString'', ''valueOf'', ''__proto__'', ''__defineGetter__'',
      ''__defineSetter__'', ''__lookupGetter__'', ''__lookupSetter__'']"

definition getProperty :: "(string \<rightharpoonup> state_object) \<Rightarrow> string \<Rightarrow> state_object option" where
  "getProperty obj name =
     (case obj name of
        Some v \<Rightarrow> Some v
      | None \<Rightarrow> if name \<in> set objectPrototypeNames then Some (Inherited name) else None)"

definition newInputHandler :: inputHandler where
  "newInputHandler =
     \<lparr>ih_active = True, ih_mode = NORMAL, ih_commandBuffer = [], ih_numericPrefix = [],
      ih_targetTypingPhrase = [], ih_currentTypingIndex = 0, ih_commandQueue = [],
      ih_actionListeners = Map.empty\<rparr>"

definition newStateManager :: "inputHandler \<Rightarrow> player \<Rightarrow> game" where
  "newStateManager ih pl =
     \<lparr>sm_states = knownStates, sm_currentState = None, sm_currentStateName = None,
      sm_previousStateName = None, inputHandler = ih, player = pl, uiCalls = [],
      consoleErrors = [], pl_currentLevel = None, pl_elapsedTime = 0, pl_enemies = [],
      go_finalScore = 0, go_levelId = 1, lc_finalScore = 0, lc_nextLevelId = None,
      lc_currentLevelId = None\<rparr>"

text \<open>
  \<open>switchTo(stateName, params = {})\<close>. A name for which \<open>this.states[stateName]\<close> is
  falsy is reported with \<open>console.error\<close> and replaced by \<open>'MENU'\<close> with empty
  parameters; the \<open>throw\<close> for a missing MENU entry is the error value. Then the previous
  name is stored, the current state exits, what the table gives for the name becomes the
  current state and enters.
\<close>

definition switchTo :: "string \<Rightarrow> params \<Rightarrow> game \<Rightarrow> error + game" where
  "switchTo requested requestedParams g =
     (let unknown = (getProperty (sm_states g) requested = None);
          g1 = (if unknown
                then g\<lparr>consoleErrors := consoleErrors g @ [UnknownState requested]\<rparr>
                else g);
          stateName = (if unknown then ''MENU'' else requested);
          ps = (if unknown then noParams else requestedParams)
      in if unknown \<and> getProperty (sm_states g1) stateName = None then Inl MenuStateNotDefined
         else
           let g2 = (case sm_currentStateName g1 of
                       None \<Rightarrow> g1
                     | Some cur \<Rightarrow>
                         if cur \<noteq> [] \<and> cur \<noteq> stateName
                         then g1\<lparr>sm_previousStateName := Some cur\<rparr>
                         else g1);
               g3 = (case sm_currentState g2 of None \<Rightarrow> g2 | Some m \<Rightarrow> exit m g2);
               g4 = g3\<lparr>sm_currentStateName := Some stateName,
                       sm_currentState := getProperty (sm_states g3) stateName\<rparr>
           in case sm_currentState g4 of
                None \<Rightarrow> Inl TypeError
              | Some m \<Rightarrow> Inr (enter m ps g4))"

text \<open>\<open>init(initialStateName = 'MENU', initialParams = {})\<close>\<close>

definition init :: "string \<Rightarrow> params \<Rightarrow> game \<Rightarrow> error + game" where
  "init initialStateName initialParams g =
     switchTo initialStateName initialParams (g\<lparr>sm_previousStateName := None\<rparr>)"

text \<open>The bodies of the registered callbacks.\<close>

fun runListener :: "listener \<Rightarrow> game \<Rightarrow> error + game" where
  "runListener MenuConfirm g = switchTo ''LOADING'' (noParams\<lparr>pr_levelId := Some 1\<rparr>) g"
| "runListener PlayingPause g = switchTo ''PAUSED'' noParams g"
| "runListener PausedUnpause g = switchTo ''PLAYING'' noParams g"
| "runListener GameOverConfirm g =
     switchTo ''LOADING'' (noParams\<lparr>pr_levelId := Some (go_levelId g)\<rparr>) g"
| "runListener GameOverMenu g = switchTo ''MENU'' noParams g"
| "runListener LevelCompleteConfirm g =
     (case lc_nextLevelId g of
        None \<Rightarrow> switchTo ''MENU'' noParams g
      | Some n \<Rightarrow>
          if n \<noteq> 0 then switchTo ''LOADING'' (noParams\<lparr>pr_levelId := Some n\<rparr>) g
          else switchTo ''MENU'' noParams g)"
| "runListener LevelCompleteMenu g = switchTo ''MENU'' noParams g"

section \<open>Keystroke parser: navigation mode\<close>

text \<open>
  \<open>parseInt(s, 10)\<close>: leading white space is skipped, a sign is read, and the longest
  run of decimal digits is the value; \<open>NaN\<close> when there is no digit.
\<close>

definition isSpace :: "char \<Rightarrow> bool" where
  "isSpace c = (c \<in> {CHR '' '', CHR 0x09, CHR 0x0A, CHR 0x0B, CHR 0x0C, CHR 0x0D})"

definition isDigit :: "char \<Rightarrow> bool" where
  "isDigit c = (c \<in> set ''0123456789'')"

definition digitValue :: "char \<Rightarrow> int" where
  "digitValue c = of_char c - 48"

definition decimal :: "string \<Rightarrow> int" where
  "decimal ds = foldl (\<lambda>a c. 10 * a + digitValue c) 0 ds"

definition parseInt :: "string \<Rightarrow> number" where
  "parseInt s =
     (let s1 = dropWhile isSpace s;
          negative = (s1 \<noteq> [] \<and> hd s1 = CHR ''-'');
          s2 = (if s1 \<noteq> [] \<and> (hd s1 = CHR ''-'' \<or> hd s1 = CHR ''+'') then tl s1 else s1);
          ds = takeWhile isDigit s2
      in if ds = [] then NaN
         else Finite (if negative then - decimal ds else decimal ds))"

text \<open>The key tables of \<open>_handleNormalMode\<close>.\<close>

definition typeMap :: "string \<rightharpoonup> string" where
  "typeMap = [''d'' \<mapsto> ''DELETE'', ''c'' \<mapsto> ''CHANGE'', ''y'' \<mapsto> ''YANK'']"

definition motionMap :: "string \<rightharpoonup> string" where
  "motionMap =
     [''h'' \<mapsto> ''LEFT'', ''j'' \<mapsto> ''DOWN'', ''k'' \<mapsto> ''UP'', ''l'' \<mapsto> ''RIGHT'',
      ''w'' \<mapsto> ''WORD_FORWARD'', ''b'' \<mapsto> ''WORD_BACKWARD'', ''e'' \<mapsto> ''WORD_END'',
      ''$'' \<mapsto> ''LINE_END'', ''^'' \<mapsto> ''LINE_FIRST_CHAR'']"

definition simpleCommandMap :: "string \<rightharpoonup> string" where
  "simpleCommandMap =
     [''x'' \<mapsto> ''DELETE_CHAR'', ''r'' \<mapsto> ''REPLACE_CHAR_START'', ''p'' \<mapsto> ''PASTE_AFTER'',
      ''P'' \<mapsto> ''PASTE_BEFORE'', ''u'' \<mapsto> ''UNDO'']"

definition isOperatorKey :: "string \<Rightarrow> bool" where
  "isOperatorKey key = (key \<in> set [''d'', ''c'', ''y''])"

text \<open>The tests \<open>/^[1-9]$/\<close>, \<open>/^[0]$/\<close> and \<open>/^[0-9]$/\<close> on a key.\<close>

definition isKey19 :: "string \<Rightarrow> bool" where
  "isKey19 key = (length key = 1 \<and> hd key \<in> set ''123456789'')"

definition isKey0 :: "string \<Rightarrow> bool" where
  "isKey0 key = (key = ''0'')"

definition isKey09 :: "string \<Rightarrow> bool" where
  "isKey09 key = (length key = 1 \<and> isDigit (hd key))"

definition resetBuffer :: "inputHandler \<Rightarrow> inputHandler" where
  "resetBuffer h = h\<lparr>ih_commandBuffer := [], ih_numericPrefix := []\<rparr>"

text \<open>
  \<open>_handleNormalMode(key)\<close>, in the order of the source: Escape (the pause listener,
  else clear and queue CLEAR\_BUFFER), the numeric prefix, \<open>0\<close> as a motion, a first
  operator key, a doubled operator key, motions and simple commands, and last the queueing
  of the command or the reset. \<open>command\<close> and the handler are threaded through the
  blocks that do not return. The \<open>setTimeout\<close> callback of the operator block has an
  empty body.
\<close>

definition handleNormalMode :: "string \<Rightarrow> game \<Rightarrow> error + game" where
  "handleNormalMode key g =
     (let h = inputHandler g;
          count = parseInt (if ih_numericPrefix h = [] then ''1'' else ih_numericPrefix h)
      in
      if key = ''Escape'' then
        (case ih_actionListeners h ''pause'' of
           Some callback \<Rightarrow>
             (case runListener callback g of
                Inl e \<Rightarrow> Inl e
              | Inr g' \<Rightarrow> Inr (onInput resetBuffer g'))
         | None \<Rightarrow> Inr (onInput (\<lambda>h. queueCommand (Some CLEAR_BUFFER) (resetBuffer h)) g))
      else if isKey19 key \<and> ih_commandBuffer h = [] then
        Inr (onInput (\<lambda>h. h\<lparr>ih_numericPrefix := ih_numericPrefix h @ key\<rparr>) g)
      else if isKey0 key \<and> ih_commandBuffer h = [] \<and> ih_numericPrefix h \<noteq> [] then
        Inr (onInput (\<lambda>h. h\<lparr>ih_numericPrefix := ih_numericPrefix h @ key\<rparr>) g)
      else
        let command0 =
              (if key = ''0'' \<and> ih_commandBuffer h = [] \<and> ih_numericPrefix h = []
               then Some (MOVE_TO ''LINE_START'' (Finite 1)) else None)
        in
        if isOperatorKey key \<and> ih_commandBuffer h = [] then
          Inr (onInput (\<lambda>h. h\<lparr>ih_commandBuffer := key\<rparr>) g)
        else
          let (command1, h1) =
                (if isOperatorKey key \<and> ih_commandBuffer h = key
                 then (case typeMap key of
                         Some ty \<Rightarrow> (Some (OPERATOR ty ''LINE'' count), h\<lparr>ih_commandBuffer := []\<rparr>)
                       | None \<Rightarrow> (command0, h))
                 else (command0, h));
              (command2, h2) =
                (if command1 \<noteq> None then (command1, h1)
                 else
                   (case motionMap key of
                      Some motion \<Rightarrow>
                        (Some (if ih_commandBuffer h1 = ''d'' then OPERATOR ''DELETE'' motion count
                               else if ih_commandBuffer h1 = ''c'' then OPERATOR ''CHANGE'' motion count
                               else if ih_commandBuffer h1 = ''y'' then OPERATOR ''YANK'' motion count
                               else MOVE motion count),
                         h1\<lparr>ih_commandBuffer := []\<rparr>)
                    | None \<Rightarrow>
                        (case (if ih_commandBuffer h1 = [] then simpleCommandMap key else None) of
                           Some ty \<Rightarrow>
                             if ty = ''REPLACE_CHAR_START''
                             then (None, h1\<lparr>ih_commandBuffer := ''r''\<rparr>)
                             else (Some (SIMPLE ty count), h1)
                         | None \<Rightarrow>
                             if ih_commandBuffer h1 = ''r'' \<and> length key = 1
                             then (Some (REPLACE_CHAR_EXECUTE key), h1\<lparr>ih_commandBuffer := []\<rparr>)
                             else (None, h1))))
          in
          Inr (g\<lparr>inputHandler :=
                 (if command2 \<noteq> None then resetBuffer (queueCommand command2 h2)
                  else if ih_commandBuffer h2 \<notin> set [''d'', ''c'', ''y'', ''r''] \<and> \<not> isKey09 key
                  then resetBuffer h2
                  else h2)\<rparr>))"

section \<open>Playing mode: applying a range action\<close>

text \<open>
  Modelled from the spec: the bodies of \<open>PlayingState.getTileAt\<close> and
  \<open>PlayingState.updateGridTile\<close> are elided in the source. The spec's grid model has
  exactly one tile per coordinate of the grid, rejects an out-of-range coordinate with
  null or a no-op, and mutates a tile only through the explicit grid-mutation call with
  partial tile data. The read is \<open>tiles[y]?.[x]\<close>, as \<open>Enemy._isValidMove\<close> reads the
  grid; the write merges the given fields into the tile, as \<open>LevelManager._placeTile\<close> does.
\<close>

definition getTileAt :: "game \<Rightarrow> int \<Rightarrow> int \<Rightarrow> tile option" where
  "getTileAt g x y =
     (case pl_currentLevel g of
        None \<Rightarrow> None
      | Some l \<Rightarrow>
          if 0 \<le> y \<and> y < int (length (lv_tiles l))
             \<and> 0 \<le> x \<and> x < int (length (lv_tiles l ! nat y))
          then Some (lv_tiles l ! nat y ! nat x)
          else None)"

text \<open>
  Modelled from the spec: the merge of partial tile data into a tile, for the elided
  \<open>updateGridTile\<close>; a field that the data does not give keeps its value.
\<close>

definition mergeTile :: "tileData \<Rightarrow> tile \<Rightarrow> tile" where
  "mergeTile d t =
     t\<lparr>t_char := (case d_char d of None \<Rightarrow> t_char t | Some c \<Rightarrow> c),
       t_type := (case d_type d of None \<Rightarrow> t_type t | Some k \<Rightarrow> k)\<rparr>"

text \<open>
  Modelled from the spec: the elided \<open>PlayingState.updateGridTile\<close>, the explicit
  grid-mutation call; a coordinate outside the grid is a no-op.
\<close>

definition updateGridTile :: "int \<Rightarrow> int \<Rightarrow> tileData \<Rightarrow> game \<Rightarrow> game" where
  "updateGridTile x y newTileData g =
     (case pl_currentLevel g of
        None \<Rightarrow> g
      | Some l \<Rightarrow>
          if 0 \<le> y \<and> y < int (length (lv_tiles l))
             \<and> 0 \<le> x \<and> x < int (length (lv_tiles l ! nat y))
          then g\<lparr>pl_currentLevel := Some (l\<lparr>lv_tiles :=
                   (lv_tiles l)[nat y :=
                      (lv_tiles l ! nat y)[nat x :=
                         mergeTile newTileData (lv_tiles l ! nat y ! nat x)]]\<rparr>)\<rparr>
          else g)"

text \<open>
  Modelled from the spec: the body of \<open>Player.addScore\<close> is elided in the source; clearing
  tiles earns score, so the amount is added to the player's score.
\<close>

definition addScore :: "int \<Rightarrow> game \<Rightarrow> game" where
  "addScore amount g = g\<lparr>player := (player g)\<lparr>p_score := p_score (player g) + amount\<rparr>\<rparr>"

text \<open>
  The enemy scan of one tile,
  \<^verbatim>\<open>for (let i = this.enemies.length - 1; i >= 0; i--) { ... if (enemy.x === x && enemy.y === y)
     { enemy.takeDamage(5); enemyHit = true; break; } }\<close>:
  \<open>enemyLoop (Suc i)\<close> looks at index \<open>i\<close> and goes on downwards; the result is the
  roster and \<open>enemyHit\<close>.
\<close>

fun enemyLoop :: "nat \<Rightarrow> int \<Rightarrow> int \<Rightarrow> enemy list \<Rightarrow> enemy list \<times> bool" where
  "enemyLoop 0 x y es = (es, False)"
| "enemyLoop (Suc i) x y es =
     (if e_x (es ! i) = x \<and> e_y (es ! i) = y
      then (es[i := takeDamage 5 (es ! i)], True)
      else enemyLoop i x y es)"

text \<open>
  The body of the inner loop for the tile \<open>(x, y)\<close>, on the game and \<open>scoreGained\<close>: the
  bounds check against the level's \<open>width\<close> and \<open>height\<close>, the enemy scan, and the tile
  itself. The second branch of the source (other tile kinds) has an empty body.
\<close>

definition tileStep :: "int \<Rightarrow> int \<Rightarrow> game \<times> int \<Rightarrow> game \<times> int" where
  "tileStep x y gs =
     (let (g, scoreGained) = gs in
      case pl_currentLevel g of
        None \<Rightarrow> gs
      | Some l \<Rightarrow>
          if y < 0 \<or> y \<ge> lv_height l \<or> x < 0 \<or> x \<ge> lv_width l then gs
          else
            let (es, enemyHit) = enemyLoop (length (pl_enemies g)) x y (pl_enemies g)
            in if enemyHit then (g\<lparr>pl_enemies := es\<rparr>, scoreGained)
               else
                 (case getTileAt g x y of
                    None \<Rightarrow> gs
                  | Some tile \<Rightarrow>
                      if t_type tile = ''corrupted''
                      then (updateGridTile x y \<lparr>d_char = Some ''.'', d_type = Some ''pathway''\<rparr> g,
                            scoreGained + 5)
                      else gs))"

text \<open>
  \<^verbatim>\<open>for (let x = minX; x <= maxX; x++)\<close> and \<^verbatim>\<open>for (let y = minY; y <= maxY; y++)\<close>.
\<close>

function colLoop :: "int \<Rightarrow> int \<Rightarrow> int \<Rightarrow> game \<times> int \<Rightarrow> game \<times> int" where
  "colLoop x maxX y gs = (if x \<le> maxX then colLoop (x + 1) maxX y (tileStep x y gs) else gs)"
  by pat_completeness auto
termination
  by (relation "measure (\<lambda>(x, maxX, y, gs). nat (maxX + 1 - x))") auto

function rowLoop :: "int \<Rightarrow> int \<Rightarrow> int \<Rightarrow> int \<Rightarrow> game \<times> int \<Rightarrow> game \<times> int" where
  "rowLoop y maxY minX maxX gs =
     (if y \<le> maxY then rowLoop (y + 1) maxY minX maxX (colLoop minX maxX y gs) else gs)"
  by pat_completeness auto
termination
  by (relation "measure (\<lambda>(y, maxY, minX, maxX, gs). nat (maxY + 1 - y))") auto

declare colLoop.simps [simp del]
declare rowLoop.simps [simp del]

text \<open>
  \<open>handleRangeAction(targetRange, cost, actionType)\<close>: nothing without a level; the range
  is normalised with \<open>Math.min\<close> and \<open>Math.max\<close> on both axes, the tiles are visited row by
  row, and a positive \<open>scoreGained\<close> is added to the score and announced. \<open>cost\<close> and
  \<open>actionType\<close> are only logged.
\<close>

definition handleRangeAction :: "target \<Rightarrow> int \<Rightarrow> string \<Rightarrow> game \<Rightarrow> game" where
  "handleRangeAction targetRange cost actionType g =
     (case pl_currentLevel g of
        None \<Rightarrow> g
      | Some l \<Rightarrow>
          let minX = min (startX targetRange) (endX targetRange);
              maxX = max (startX targetRange) (endX targetRange);
              minY = min (startY targetRange) (endY targetRange);
              maxY = max (startY targetRange) (endY targetRange);
              (g1, scoreGained) = rowLoop minY maxY minX maxX (g, 0)
          in if scoreGained > 0
             then ui (ShowMessage (ClearedNodes (scoreGained div 5)) 1000) (addScore scoreGained g1)
             else g1)"

section \<open>Player: resolving an operator and a motion into a range\<close>

text \<open>
  The motion helpers and \<open>requestAction\<close> are methods of \<open>Player\<close> whose bodies the source
  elides; \<open>_handleDeleteOrChangeMotion\<close> is modelled over them. A helper returns a position
  or null; \<open>requestAction\<close> returns the action request or null and may change the player.
\<close>

record helpers =
  findNextWordStart :: "player \<Rightarrow> int \<Rightarrow> int \<Rightarrow> position option"
  findPreviousWordStart :: "player \<Rightarrow> int \<Rightarrow> int \<Rightarrow> position option"
  findWordEnd :: "player \<Rightarrow> int \<Rightarrow> int \<Rightarrow> position option"
  findLineStart :: "player \<Rightarrow> int \<Rightarrow> position option"
  findLineEnd :: "player \<Rightarrow> int \<Rightarrow> position option"
  findLineFirstChar :: "player \<Rightarrow> int \<Rightarrow> position option"
  requestAction :: "player \<Rightarrow> string \<Rightarrow> target \<Rightarrow> int \<Rightarrow> action option \<times> player"

text \<open>
  The three search loops, \<^verbatim>\<open>for (let i = 0; i < count; i++)\<close>, on the number of iterations
  left. In the WORD\_END loop \<open>i < count - 1\<close> says that an iteration is left after this one.
\<close>

fun wordForwardLoop :: "helpers \<Rightarrow> player \<Rightarrow> nat \<Rightarrow> position \<Rightarrow> position option" where
  "wordForwardLoop h p 0 targetPos = Some targetPos"
| "wordForwardLoop h p (Suc n) targetPos =
     (case findNextWordStart h p (pos_x targetPos) (pos_y targetPos) of
        None \<Rightarrow> findLineEnd h p (p_y p)
      | Some t \<Rightarrow> wordForwardLoop h p n t)"

fun wordEndLoop :: "helpers \<Rightarrow> player \<Rightarrow> int \<Rightarrow> nat \<Rightarrow> position \<Rightarrow> position option" where
  "wordEndLoop h p width 0 targetPos = Some targetPos"
| "wordEndLoop h p width (Suc n) targetPos =
     (case findWordEnd h p (pos_x targetPos) (pos_y targetPos) of
        None \<Rightarrow> None
      | Some t \<Rightarrow>
          wordEndLoop h p width n
            (if 0 < n \<and> pos_x t < width - 1 then t\<lparr>pos_x := pos_x t + 1\<rparr> else t))"

fun wordBackwardLoop :: "helpers \<Rightarrow> player \<Rightarrow> nat \<Rightarrow> position \<Rightarrow> position option" where
  "wordBackwardLoop h p 0 targetPos = Some targetPos"
| "wordBackwardLoop h p (Suc n) targetPos =
     (case findPreviousWordStart h p (pos_x targetPos) (pos_y targetPos) of
        None \<Rightarrow> findLineStart h p (p_y p)
      | Some t \<Rightarrow> wordBackwardLoop h p n t)"

text \<open>
  The \<open>switch (motion)\<close>: each case gives the span and its cost, returns null, or fails with
  a TypeError where the source reads \<open>.x\<close> of a null position.
\<close>

definition motionSpan ::
  "helpers \<Rightarrow> player \<Rightarrow> level \<Rightarrow> string \<Rightarrow> int \<Rightarrow> error + (target \<times> int) option" where
  "motionSpan h p grid motion count =
     (let x = p_x p; y = p_y p; width = lv_width grid; height = lv_height grid;
          span = (\<lambda>sx sy ex ey cost.
                    Inr (Some (\<lparr>startX = sx, startY = sy, endX = ex, endY = ey\<rparr>, cost)))
      in
      if motion = ''LINE'' then
        span 0 y (width - 1) (min (y + count - 1) (height - 1)) (10 * count * (width - 1 - 0 + 1))
      else if motion = ''LEFT'' then
        (let sx = (if count > 0 then max 0 (x - count) else x); ex = x - 1
         in if sx > ex then Inr None else span sx y ex y (ex - sx + 1))
      else if motion = ''RIGHT'' then
        (let ex = min (width - 1) (x + count - 1) in span x y ex y (ex - x + 1))
      else if motion = ''UP'' \<or> motion = ''DOWN'' then
        (let isDown = (motion = ''DOWN'');
             targetLineY = (if isDown then min (height - 1) (y + count) else max 0 (y - count))
         in span 0 (if isDown then y else targetLineY) (width - 1)
                 (if isDown then targetLineY else y) (10 * (\<bar>targetLineY - y\<bar> + 1)))
      else if motion = ''WORD_FORWARD'' then
        (case (case wordForwardLoop h p (nat count) \<lparr>pos_x = x, pos_y = y\<rparr> of
                 Some t \<Rightarrow> Some (pos_x t - 1)
               | None \<Rightarrow> map_option pos_x (findLineEnd h p y)) of
           None \<Rightarrow> Inl TypeError
         | Some ex \<Rightarrow> span x y ex y (3 * count + \<bar>ex - x\<bar>))
      else if motion = ''WORD_END'' then
        (let ex = (case wordEndLoop h p width (nat count) \<lparr>pos_x = x, pos_y = y\<rparr> of
                     Some t \<Rightarrow> pos_x t | None \<Rightarrow> x)
         in span x y ex y (3 * count + \<bar>ex - x\<bar>))
      else if motion = ''WORD_BACKWARD'' then
        (let sx = (case wordBackwardLoop h p (nat count) \<lparr>pos_x = x, pos_y = y\<rparr> of
                     Some t \<Rightarrow> pos_x t | None \<Rightarrow> 0);
             ex = x - 1
         in if sx > ex then Inr None else span sx y ex y (3 * count + \<bar>ex - sx\<bar>))
      else if motion = ''LINE_END'' then
        (case findLineEnd h p y of
           None \<Rightarrow> Inl TypeError
         | Some t \<Rightarrow> span x y (pos_x t) y (5 + \<bar>pos_x t - x\<bar>))
      else if motion = ''LINE_START'' then
        (case findLineStart h p y of
           None \<Rightarrow> Inl TypeError
         | Some t \<Rightarrow>
             if pos_x t > x - 1 then Inr None
             else span (pos_x t) y (x - 1) y (5 + \<bar>x - 1 - pos_x t\<bar>))
      else if motion = ''LINE_FIRST_CHAR'' then
        (case findLineFirstChar h p y of
           None \<Rightarrow> Inl TypeError
         | Some t \<Rightarrow>
             if pos_x t > x - 1 then Inr None
             else span (pos_x t) y (x - 1) y (5 + \<bar>x - 1 - pos_x t\<bar>))
      else Inr None)"

text \<open>
  \<open>_handleDeleteOrChangeMotion(motion, count, baseActionType)\<close>: null without a grid;
  otherwise the span of the motion is handed to \<open>requestAction\<close> under the action type
  \<open>baseActionType + '_RANGE'\<close>, and its result is returned.
\<close>

definition handleDeleteOrChangeMotion ::
  "helpers \<Rightarrow> string \<Rightarrow> int \<Rightarrow> string \<Rightarrow> player \<Rightarrow> error + (action option \<times> player)" where
  "handleDeleteOrChangeMotion h motion count baseActionType p =
     (case p_currentLevelGrid p of
        None \<Rightarrow> Inr (None, p)
      | Some grid \<Rightarrow>
          (case motionSpan h p grid motion count of
             Inl e \<Rightarrow> Inl e
           | Inr None \<Rightarrow> Inr (None, p)
           | Inr (Some (targetData, cost)) \<Rightarrow>
               Inr (requestAction h p (baseActionType @ ''_RANGE'') targetData cost)))"

text \<open>
  Modelled from the spec: the bodies of \<open>_isWhitespace\<close>, the motion helpers and
  \<open>requestAction\<close> are elided in the source. In the spec's motion resolver a word is a
  maximal run of non-whitespace tiles and its boundaries are decided by the whitespace
  classification of adjacent tiles; \<open>lineStart\<close> is column 0, \<open>lineEnd\<close> the last column,
  \<open>lineFirstNonBlank\<close> the first column of the row whose tile is not whitespace (column 0
  if there is none); the resolver emits the action with its kind, range and cost. The
  classification of a glyph is not given by the spec and is the parameter \<open>ws\<close>.
  A word starts at a non-whitespace column whose left neighbour is whitespace or off the
  row, and ends at one whose right neighbour is.
\<close>

text \<open>
  Modelled from the spec: the row \<open>y\<close> of the player's grid that the elided helpers
  search; empty without a grid or outside it.
\<close>

definition rowOf :: "player \<Rightarrow> int \<Rightarrow> tile list" where
  "rowOf p y =
     (case p_currentLevelGrid p of
        None \<Rightarrow> []
      | Some grid \<Rightarrow>
          if 0 \<le> y \<and> y < int (length (lv_tiles grid)) then lv_tiles grid ! nat y else [])"

text \<open>
  Modelled from the spec: the word boundaries of the elided helpers, decided by the
  whitespace classification of adjacent tiles.
\<close>

definition wordStartsAt :: "(string \<Rightarrow> bool) \<Rightarrow> tile list \<Rightarrow> nat \<Rightarrow> bool" where
  "wordStartsAt ws row s =
     (s < length row \<and> \<not> ws (t_char (row ! s)) \<and> (s = 0 \<or> ws (t_char (row ! (s - 1)))))"

text \<open>
  Modelled from the spec: the end of a word, for the elided \<open>_findWordEnd\<close>.
\<close>

definition wordEndsAt :: "(string \<Rightarrow> bool) \<Rightarrow> tile list \<Rightarrow> nat \<Rightarrow> bool" where
  "wordEndsAt ws row e =
     (e < length row \<and> \<not> ws (t_char (row ! e))
      \<and> (Suc e = length row \<or> ws (t_char (row ! Suc e))))"

text \<open>
  Modelled from the spec: the backward search of the elided helpers, for the nearest
  column below \<open>n\<close>.
\<close>

fun searchBelow :: "(nat \<Rightarrow> bool) \<Rightarrow> nat \<Rightarrow> nat option" where
  "searchBelow P 0 = None"
| "searchBelow P (Suc s) = (if P s then Some s else searchBelow P s)"

text \<open>
  Modelled from the spec: the forward search of the elided helpers, for the nearest among
  the \<open>k\<close> columns from \<open>s\<close> on.
\<close>

fun searchFrom :: "(nat \<Rightarrow> bool) \<Rightarrow> nat \<Rightarrow> nat \<Rightarrow> nat option" where
  "searchFrom P s 0 = None"
| "searchFrom P s (Suc k) = (if P s then Some s else searchFrom P (Suc s) k)"

text \<open>
  Modelled from the spec: the elided motion helpers and \<open>requestAction\<close> of \<open>Player\<close>,
  over the whitespace classification \<open>ws\<close>. The previous word start is the nearest word
  start at or left of the column: the start of the word that holds the column, or of the
  nearest word before it. So the span of WordBackward, from the previous word start to the
  column before the cursor, is empty at the first character of a word, as the spec has it
  (and as the source says where it returns null: nothing to delete if the cursor is at the
  start of a word). The next word start is the nearest one right of the column, the word
  end the nearest one at or right of it; \<open>requestAction\<close> emits the action and leaves the
  player as it is.
\<close>

definition atColumn :: "int \<Rightarrow> nat option \<Rightarrow> position option" where
  "atColumn y c = map_option (\<lambda>s. \<lparr>pos_x = int s, pos_y = y\<rparr>) c"

text \<open>
  Modelled from the spec: the seven elided methods, as described above.
\<close>

definition specHelpers :: "(string \<Rightarrow> bool) \<Rightarrow> helpers" where
  "specHelpers ws =
     \<lparr>findNextWordStart = (\<lambda>p x y.
        atColumn y (searchFrom (wordStartsAt ws (rowOf p y)) (nat (x + 1))
                      (length (rowOf p y) - nat (x + 1)))),
      findPreviousWordStart = (\<lambda>p x y.
        if x < 0 then None
        else atColumn y (searchBelow (wordStartsAt ws (rowOf p y)) (Suc (nat x)))),
      findWordEnd = (\<lambda>p x y.
        atColumn y (searchFrom (wordEndsAt ws (rowOf p y)) (nat x) (length (rowOf p y) - nat x))),
      findLineStart = (\<lambda>p y. Some \<lparr>pos_x = 0, pos_y = y\<rparr>),
      findLineEnd = (\<lambda>p y.
        Some \<lparr>pos_x = (case p_currentLevelGrid p of None \<Rightarrow> 0 | Some grid \<Rightarrow> lv_width grid - 1),
              pos_y = y\<rparr>),
      findLineFirstChar = (\<lambda>p y.
        Some \<lparr>pos_x = (case searchFrom (\<lambda>s. s < length (rowOf p y) \<and> \<not> ws (t_char (rowOf p y ! s)))
                               0 (length (rowOf p y)) of
                         None \<Rightarrow> 0 | Some s \<Rightarrow> int s),
              pos_y = y\<rparr>),
      requestAction = (\<lambda>p actionType targetData cost.
        (Some \<lparr>a_type = actionType, a_target = targetData, a_cost = cost\<rparr>, p))\<rparr>"

section \<open>Vocabulary of the properties\<close>

text \<open>
  The numeric prefix the handler can hold: it is empty, or starts with a digit 1 to 9 and
  continues with digits (the prefix is only ever extended by the two prefix rules of
  \<open>_handleNormalMode\<close>, and cleared).
\<close>

definition validPrefix :: "string \<Rightarrow> bool" where
  "validPrefix p = (p = [] \<or> (hd p \<in> set ''123456789'' \<and> list_all isDigit p))"

text \<open>
  An enemy of the roster stands on \<open>(x, y)\<close>; the coordinate is inside the level's
  \<open>width\<close> and \<open>height\<close>; the coordinate is inside the normalised range.
\<close>

definition enemyAt :: "enemy list \<Rightarrow> int \<Rightarrow> int \<Rightarrow> bool" where
  "enemyAt es x y = list_ex (\<lambda>e. e_x e = x \<and> e_y e = y) es"

definition inGrid :: "game \<Rightarrow> int \<Rightarrow> int \<Rightarrow> bool" where
  "inGrid g x y =
     (case pl_currentLevel g of
        None \<Rightarrow> False
      | Some l \<Rightarrow> 0 \<le> x \<and> x < lv_width l \<and> 0 \<le> y \<and> y < lv_height l)"

definition inRange :: "target \<Rightarrow> int \<Rightarrow> int \<Rightarrow> bool" where
  "inRange r x y =
     (min (startX r) (endX r) \<le> x \<and> x \<le> max (startX r) (endX r)
      \<and> min (startY r) (endY r) \<le> y \<and> y \<le> max (startY r) (endY r))"

text \<open>
  A tile the pass clears: inside the grid, no enemy on it, and of kind \<open>corrupted\<close>. The
  tile data the pass writes.
\<close>

definition clearable :: "game \<Rightarrow> int \<Rightarrow> int \<Rightarrow> bool" where
  "clearable g x y =
     (inGrid g x y \<and> \<not> enemyAt (pl_enemies g) x y
      \<and> (case getTileAt g x y of None \<Rightarrow> False | Some t \<Rightarrow> t_type t = ''corrupted''))"

definition pathwayData :: tileData where
  "pathwayData = \<lparr>d_char = Some ''.'', d_type = Some ''pathway''\<rparr>"

text \<open>
  Enemy \<open>j\<close> is the last of the roster on its tile: the enemy scan, which runs from the
  end of the roster and stops at the first enemy found, reaches it.
\<close>

definition lastAtTile :: "enemy list \<Rightarrow> nat \<Rightarrow> bool" where
  "lastAtTile es j = (\<not> enemyAt (drop (Suc j) es) (e_x (es ! j)) (e_y (es ! j)))"

text \<open>
  What a pass leaves unchanged: the dimensions of the level and the positions of the
  enemies. \<open>struck\<close> is \<open>lastAtTile\<close> inside the grid, in terms of the positions.
\<close>

definition shape :: "game \<Rightarrow> (int \<times> int \<times> nat list) option" where
  "shape g = map_option (\<lambda>l. (lv_width l, lv_height l, map length (lv_tiles l))) (pl_currentLevel g)"

definition positions :: "game \<Rightarrow> (int \<times> int) list" where
  "positions g = map (\<lambda>e. (e_x e, e_y e)) (pl_enemies g)"

definition struck :: "game \<Rightarrow> nat \<Rightarrow> bool" where
  "struck g j =
     (inGrid g (fst (positions g ! j)) (snd (positions g ! j))
      \<and> positions g ! j \<notin> set (drop (Suc j) (positions g)))"

section \<open>Example states\<close>

text \<open>
  Concrete states on which the model is evaluated: a game in Playing mode with the pause
  listener registered, one chaser, 12 seconds on the clock and the cursor at \<open>(3, 2)\<close>.
\<close>

definition somePlayer :: player where
  "somePlayer = \<lparr>p_x = 3, p_y = 2, p_score = 0, p_currentLevelGrid = None\<rparr>"

definition playingGame :: game where
  "playingGame =
     (newStateManager newInputHandler somePlayer)
       \<lparr>sm_currentState := Some PLAYING, sm_currentStateName := Some ''PLAYING'',
        inputHandler := registerActionListener ''pause'' PlayingPause newInputHandler,
        pl_elapsedTime := 12, pl_enemies := [chaser]\<rparr>"

text \<open>
  A level of one row, \<open>. | # # #\<close>: a pathway tile, a barrier and three corrupted tiles;
  a game on it without enemies and one with two chasers on the tile \<open>(3, 0)\<close>; and the
  range of the columns 1 to 4 of the row, given from right to left.
\<close>

definition pathwayTile :: tile where
  "pathwayTile = \<lparr>t_char = ''.'', t_type = ''pathway'', t_requiredWord = None,
                   t_isWordStart = False, t_isPartOfWord = False\<rparr>"

definition corruptedTile :: tile where
  "corruptedTile = \<lparr>t_char = ''#'', t_type = ''corrupted'', t_requiredWord = None,
                     t_isWordStart = False, t_isPartOfWord = False\<rparr>"

definition barrierTile :: tile where
  "barrierTile = \<lparr>t_char = ''|'', t_type = ''barrier'', t_requiredWord = None,
                   t_isWordStart = False, t_isPartOfWord = False\<rparr>"

definition corruptedRow :: level where
  "corruptedRow =
     \<lparr>lv_id = 1, lv_width = 5, lv_height = 1,
      lv_tiles = [[pathwayTile, barrierTile, corruptedTile, corruptedTile, corruptedTile]]\<rparr>"

definition rowGame :: game where
  "rowGame = playingGame\<lparr>pl_currentLevel := Some corruptedRow, pl_enemies := []\<rparr>"

definition crowdedGame :: game where
  "crowdedGame =
     rowGame\<lparr>pl_enemies := [chaser\<lparr>e_x := 3, e_y := 0\<rparr>,
                             chaser\<lparr>e_id := ''enemy-1'', e_x := 3, e_y := 0\<rparr>]\<rparr>"

definition reversedRange :: target where
  "reversedRange = \<lparr>startX = 4, startY = 0, endX = 1, endY = 0\<rparr>"

text \<open>
  Parser states: the prefix \<open>3\<close> typed, then the operator \<open>d\<close> pending; and a state
  manager as the constructor leaves it.
\<close>

definition countedGame :: game where
  "countedGame = playingGame\<lparr>inputHandler := (inputHandler playingGame)\<lparr>ih_numericPrefix := ''3''\<rparr>\<rparr>"

definition pendingDelete :: game where
  "pendingDelete = countedGame\<lparr>inputHandler := (inputHandler countedGame)\<lparr>ih_commandBuffer := ''d''\<rparr>\<rparr>"

definition freshGame :: game where
  "freshGame = newStateManager newInputHandler somePlayer"

text \<open>The state manager's current name and state, and the errors it has reported.\<close>

definition managerState :: "game \<Rightarrow> string option \<times> state_object option \<times> console_error list" where
  "managerState g = (sm_currentStateName g, sm_currentState g, consoleErrors g)"

text \<open>The parser's queue, buffer and prefix.\<close>

definition parserState :: "game \<Rightarrow> command list \<times> string \<times> string" where
  "parserState g =
     (ih_commandQueue (inputHandler g), ih_commandBuffer (inputHandler g),
      ih_numericPrefix (inputHandler g))"

text \<open>
  The row \<open>ab cd\<close> with the space as the only whitespace glyph and the cursor on \<open>c\<close>; and
  a level of the size of the first stream, 20 by 5, with the cursor at \<open>(1, 2)\<close>.
\<close>

definition isBlank :: "string \<Rightarrow> bool" where
  "isBlank c = (c = '' '')"

definition glyph :: "string \<Rightarrow> tile" where
  "glyph c = \<lparr>t_char = c, t_type = ''decoration'', t_requiredWord = None,
              t_isWordStart = False, t_isPartOfWord = False\<rparr>"

definition wordsRow :: level where
  "wordsRow =
     \<lparr>lv_id = 1, lv_width = 5, lv_height = 1,
      lv_tiles = [[glyph ''a'', glyph ''b'', glyph '' '', glyph ''c'', glyph ''d'']]\<rparr>"

definition wordPlayer :: player where
  "wordPlayer = \<lparr>p_x = 3, p_y = 0, p_score = 0, p_currentLevelGrid = Some wordsRow\<rparr>"

definition streamInit :: level where
  "streamInit =
     \<lparr>lv_id = 1, lv_width = 20, lv_height = 5,
      lv_tiles = replicate 5 (replicate 20 (glyph ''.''))\<rparr>"

definition streamPlayer :: player where
  "streamPlayer = \<lparr>p_x = 1, p_y = 2, p_score = 0, p_currentLevelGrid = Some streamInit\<rparr>"

section \<open>Verified properties\<close>

subsection \<open>Enemy damage\<close>

text \<open>
  C10. For every enemy and every damage amount, after \<open>takeDamage\<close> the health is
  \<open>max 0 (health - amount)\<close> and so never negative; the state is \<open>'defeated'\<close> when the
  new health is 0 and is the old state otherwise; and \<open>isDefeated\<close> holds after the call
  if and only if the health is 0.
\<close>

theorem takeDamage_floor_defeated:
  "e_health (takeDamage amount e) = max 0 (e_health e - amount)
   \<and> 0 \<le> e_health (takeDamage amount e)
   \<and> e_state (takeDamage amount e) =
       (if e_health (takeDamage amount e) = 0 then ''defeated'' else e_state e)
   \<and> isDefeated (takeDamage amount e) = (e_health (takeDamage amount e) = 0)"
  by (auto simp: takeDamage_def isDefeated_def Let_def)

theorem takeDamage_floor_defeated_witness:
  "e_health (takeDamage 5 chaser) = 0
   \<and> e_state (takeDamage 5 chaser) = ''defeated''
   \<and> isDefeated (takeDamage 5 chaser)
   \<and> e_health (takeDamage 1 chaser) = 1
   \<and> e_state (takeDamage 1 chaser) = ''chasing''
   \<and> \<not> isDefeated (takeDamage 1 chaser)"
  using takeDamage_floor_defeated [of 5 chaser] takeDamage_floor_defeated [of 1 chaser]
  by (simp add: chaser_def)

subsection \<open>The count of a command\<close>

lemma digitValue_range: "isDigit c \<Longrightarrow> 0 \<le> digitValue c \<and> digitValue c \<le> 9"
  by (auto simp: isDigit_def digitValue_def)

lemma digitValue_pos: "c \<in> set ''123456789'' \<Longrightarrow> 1 \<le> digitValue c"
  by (auto simp: digitValue_def)

lemma foldl_decimal_ge:
  "list_all isDigit ds \<Longrightarrow> 0 \<le> a \<Longrightarrow> a \<le> foldl (\<lambda>a c. 10 * a + digitValue c) a ds"
proof (induction ds arbitrary: a)
  case Nil
  then show ?case by simp
next
  case (Cons c ds)
  have d: "0 \<le> digitValue c" using Cons.prems(1) digitValue_range by simp
  have "10 * a + digitValue c \<le> foldl (\<lambda>a c. 10 * a + digitValue c) (10 * a + digitValue c) ds"
    using Cons.IH [of "10 * a + digitValue c"] Cons.prems d by simp
  then show ?case using Cons.prems(2) d by simp
qed

lemma decimal_valid_pos: "validPrefix p \<Longrightarrow> p \<noteq> [] \<Longrightarrow> 1 \<le> decimal p"
proof -
  assume v: "validPrefix p" and ne: "p \<noteq> []"
  then obtain c cs where p: "p = c # cs" by (cases p) auto
  from v p have c: "c \<in> set ''123456789''" and ds: "list_all isDigit cs"
    by (auto simp: validPrefix_def)
  have "digitValue c \<le> foldl (\<lambda>a c. 10 * a + digitValue c) (digitValue c) cs"
    using foldl_decimal_ge [OF ds, of "digitValue c"] digitValue_pos [OF c] by simp
  then show ?thesis using digitValue_pos [OF c] by (simp add: decimal_def p)
qed

lemma parseInt_valid: "validPrefix p \<Longrightarrow> p \<noteq> [] \<Longrightarrow> parseInt p = Finite (decimal p)"
proof -
  assume v: "validPrefix p" and ne: "p \<noteq> []"
  then obtain c cs where p: "p = c # cs" by (cases p) auto
  from v p have c: "c \<in> set ''123456789''" and ds: "list_all isDigit (c # cs)"
    by (auto simp: validPrefix_def)
  have ns: "\<not> isSpace c" using c by (auto simp: isSpace_def)
  have nsg: "c \<noteq> CHR ''-'' \<and> c \<noteq> CHR ''+''" using c by auto
  have tw: "takeWhile isDigit (c # cs) = c # cs"
    using ds by (simp add: list_all_iff)
  show ?thesis
    unfolding parseInt_def p using ns nsg tw by (simp add: Let_def)
qed

lemma parseInt_1: "parseInt ''1'' = Finite 1"
  by (simp add: parseInt_def isSpace_def isDigit_def decimal_def digitValue_def Let_def)

lemma count_of_prefix:
  "validPrefix p \<Longrightarrow>
   parseInt (if p = [] then ''1'' else p) =
     (case parseInt p of Finite n \<Rightarrow> Finite (max 1 n) | NaN \<Rightarrow> Finite 1)"
proof (cases "p = []")
  case True
  then show ?thesis by (simp add: parseInt_1) (simp add: parseInt_def)
next
  case False
  assume "validPrefix p"
  then show ?thesis using False parseInt_valid [of p] decimal_valid_pos [of p] by simp
qed

lemma operator_first:
  assumes "isOperatorKey k" "ih_commandBuffer (inputHandler g) = []"
  shows "handleNormalMode k g = Inr (g\<lparr>inputHandler := (inputHandler g)\<lparr>ih_commandBuffer := k\<rparr>\<rparr>)"
proof -
  have k: "k = ''d'' \<or> k = ''c'' \<or> k = ''y''" using assms(1) by (simp add: isOperatorKey_def)
  have nk: "\<not> isKey19 k" "\<not> isKey0 k" "k \<noteq> ''Escape''"
    using k by (auto simp: isKey19_def isKey0_def)
  show ?thesis
    unfolding handleNormalMode_def Let_def using assms nk by (simp add: onInput_def)
qed

lemma operator_doubled:
  assumes "isOperatorKey k" "ih_commandBuffer (inputHandler g) = k"
  shows "handleNormalMode k g =
     Inr (g\<lparr>inputHandler := (inputHandler g)\<lparr>
            ih_commandQueue := ih_commandQueue (inputHandler g) @
              [OPERATOR (the (typeMap k)) ''LINE''
                 (parseInt (if ih_numericPrefix (inputHandler g) = [] then ''1''
                            else ih_numericPrefix (inputHandler g)))],
            ih_commandBuffer := [], ih_numericPrefix := []\<rparr>\<rparr>)"
proof -
  have k: "k = ''d'' \<or> k = ''c'' \<or> k = ''y''" using assms(1) by (simp add: isOperatorKey_def)
  have nk: "\<not> isKey19 k" "\<not> isKey0 k" "k \<noteq> ''Escape''" "k \<noteq> []"
    using k by (auto simp: isKey19_def isKey0_def)
  obtain ty where ty: "typeMap k = Some ty" using k by (auto simp: typeMap_def)
  show ?thesis
    unfolding handleNormalMode_def Let_def using assms nk ty
    by (simp add: queueCommand_def resetBuffer_def)
qed

subsection \<open>Transitions of the state manager\<close>

lemmas mode_defs =
  enterMenu_def exitMenu_def enterLoading_def exitLoading_def enterPlaying_def exitPlaying_def
  enterPaused_def exitPaused_def enterGameOver_def exitGameOver_def enterLevelComplete_def
  exitLevelComplete_def steps_def onInput_def ui_def

lemma exit_manager:
  "sm_states (exit m g) = sm_states g \<and> consoleErrors (exit m g) = consoleErrors g
   \<and> sm_currentState (exit m g) = sm_currentState g
   \<and> sm_currentStateName (exit m g) = sm_currentStateName g
   \<and> sm_previousStateName (exit m g) = sm_previousStateName g"
  by (cases m) (simp_all add: mode_defs)

lemma enter_manager:
  "sm_states (enter m ps g) = sm_states g \<and> consoleErrors (enter m ps g) = consoleErrors g
   \<and> sm_currentState (enter m ps g) = sm_currentState g
   \<and> sm_currentStateName (enter m ps g) = sm_currentStateName g
   \<and> sm_previousStateName (enter m ps g) = sm_previousStateName g"
  by (cases m) (simp_all add: mode_defs)

lemma knownStates_MENU: "getProperty knownStates ''MENU'' = Some MENU"
  by (simp add: getProperty_def knownStates_def)

lemma switchTo_unknown:
  assumes "sm_states g = knownStates" "getProperty knownStates name = None"
  shows "\<exists>g'. switchTo name ps g = Inr g' \<and> sm_states g' = knownStates
           \<and> sm_currentStateName g' = Some ''MENU'' \<and> sm_currentState g' = Some MENU
           \<and> consoleErrors g' = consoleErrors g @ [UnknownState name]"
  unfolding switchTo_def Let_def using assms
  by (simp add: knownStates_MENU exit_manager enter_manager split: option.split)

lemma switchTo_known:
  assumes "sm_states g = knownStates" "getProperty knownStates name = Some m"
  shows "\<exists>g'. switchTo name ps g = Inr g' \<and> sm_states g' = knownStates
           \<and> sm_currentStateName g' = Some name \<and> sm_currentState g' = Some m
           \<and> consoleErrors g' = consoleErrors g"
  unfolding switchTo_def Let_def using assms
  by (simp add: exit_manager enter_manager split: option.split)

subsection \<open>One tile of a range action\<close>

lemma takeDamage_position: "e_x (takeDamage a e) = e_x e \<and> e_y (takeDamage a e) = e_y e"
  by (simp add: takeDamage_def Let_def)

lemma enemyLoop_length: "length (fst (enemyLoop n x y es)) = length es"
  by (induction n) simp_all

lemma enemyLoop_positions:
  "n \<le> length es \<Longrightarrow>
   map (\<lambda>e. (e_x e, e_y e)) (fst (enemyLoop n x y es)) = map (\<lambda>e. (e_x e, e_y e)) es"
proof (induction n)
  case 0
  then show ?case by simp
next
  case (Suc n)
  then show ?case
    by (simp add: map_update takeDamage_position list_update_same_conv)
qed

lemma enemyLoop_hit:
  "n \<le> length es \<Longrightarrow>
   snd (enemyLoop n x y es) = (\<exists>i<n. e_x (es ! i) = x \<and> e_y (es ! i) = y)"
proof (induction n)
  case 0
  then show ?case by simp
next
  case (Suc n)
  then show ?case by (auto simp: less_Suc_eq)
qed

lemma enemyLoop_enemyAt: "snd (enemyLoop (length es) x y es) = enemyAt es x y"
  by (simp add: enemyLoop_hit enemyAt_def list_ex_iff) (metis in_set_conv_nth)

lemma enemyLoop_nth:
  "n \<le> length es \<Longrightarrow> j < length es \<Longrightarrow>
   fst (enemyLoop n x y es) ! j =
     (if j < n \<and> e_x (es ! j) = x \<and> e_y (es ! j) = y
         \<and> (\<forall>k. j < k \<and> k < n \<longrightarrow> \<not> (e_x (es ! k) = x \<and> e_y (es ! k) = y))
      then takeDamage 5 (es ! j) else es ! j)"
proof (induction n)
  case 0
  then show ?case by simp
next
  case (Suc n)
  show ?case
  proof (cases "e_x (es ! n) = x \<and> e_y (es ! n) = y")
    case True
    then show ?thesis using Suc.prems
      by (auto simp: nth_list_update less_Suc_eq)
  next
    case False
    then have "fst (enemyLoop (Suc n) x y es) ! j = fst (enemyLoop n x y es) ! j" by auto
    also have "\<dots> = (if j < n \<and> e_x (es ! j) = x \<and> e_y (es ! j) = y
         \<and> (\<forall>k. j < k \<and> k < n \<longrightarrow> \<not> (e_x (es ! k) = x \<and> e_y (es ! k) = y))
      then takeDamage 5 (es ! j) else es ! j)"
      using Suc by simp
    finally show ?thesis using False by (auto simp: less_Suc_eq)
  qed
qed

lemma enemyAt_positions: "enemyAt (pl_enemies g) x y = ((x, y) \<in> set (positions g))"
  by (auto simp: enemyAt_def positions_def list_ex_iff)

lemma map_update_same: "(map f xs)[n := f (xs ! n)] = map f xs"
  by (cases "n < length xs") (simp_all add: list_update_same_conv list_update_beyond)

lemma grid_update_length:
  "length ((rows[i := (rows ! i)[j := v]]) ! i') = length (rows ! i')"
  by (cases "i < length rows") (simp_all add: nth_list_update list_update_beyond)

lemma grid_update_nth:
  "i < length rows \<Longrightarrow> j < length (rows ! i) \<Longrightarrow>
   (rows[i := (rows ! i)[j := v]]) ! i' ! j' = (if i' = i \<and> j' = j then v else rows ! i' ! j')"
  by (simp add: nth_list_update)

lemma updateGridTile_frame:
  "shape (updateGridTile x y d g) = shape g
   \<and> pl_enemies (updateGridTile x y d g) = pl_enemies g
   \<and> player (updateGridTile x y d g) = player g
   \<and> uiCalls (updateGridTile x y d g) = uiCalls g"
  by (simp add: updateGridTile_def shape_def map_update map_update_same
      split: option.split)

lemma updateGridTile_other:
  assumes "(x', y') \<noteq> (x, y)"
  shows "getTileAt (updateGridTile x y d g) x' y' = getTileAt g x' y'"
proof (cases "pl_currentLevel g")
  case None
  then show ?thesis by (simp add: updateGridTile_def)
next
  case (Some l)
  show ?thesis
  proof (cases "0 \<le> y \<and> y < int (length (lv_tiles l)) \<and> 0 \<le> x \<and> x < int (length (lv_tiles l ! nat y))")
    case False
    then show ?thesis using Some by (auto simp: updateGridTile_def)
  next
    case True
    then have iy: "nat y < length (lv_tiles l)" and ix: "nat x < length (lv_tiles l ! nat y)"
      by auto
    show ?thesis
    proof (cases "0 \<le> y' \<and> 0 \<le> x'")
      case False
      then show ?thesis using Some True
        by (auto simp: updateGridTile_def getTileAt_def)
    next
      case nonneg: True
      then have ne: "\<not> (nat y' = nat y \<and> nat x' = nat x)"
        using assms True by auto
      then have "(if nat y' = nat y \<and> nat x' = nat x
                  then mergeTile d (lv_tiles l ! nat y ! nat x)
                  else lv_tiles l ! nat y' ! nat x') = lv_tiles l ! nat y' ! nat x'"
        by (rule if_not_P)
      then show ?thesis using Some True
        by (simp add: updateGridTile_def getTileAt_def grid_update_length
            grid_update_nth [OF iy ix])
    qed
  qed
qed

lemma updateGridTile_own:
  assumes "getTileAt g x y = Some t"
  shows "getTileAt (updateGridTile x y d g) x y = Some (mergeTile d t)"
proof -
  from assms obtain l where l: "pl_currentLevel g = Some l"
    by (auto simp: getTileAt_def split: option.splits)
  from assms l have b: "0 \<le> y \<and> y < int (length (lv_tiles l)) \<and> 0 \<le> x \<and> x < int (length (lv_tiles l ! nat y))"
    and t: "t = lv_tiles l ! nat y ! nat x"
    by (auto simp: getTileAt_def split: if_splits)
  then have iy: "nat y < length (lv_tiles l)" and ix: "nat x < length (lv_tiles l ! nat y)"
    by auto
  show ?thesis using l b t
    by (simp add: updateGridTile_def getTileAt_def grid_update_length
        grid_update_nth [OF iy ix])
qed

lemma tileStep_eq:
  "tileStep x y (g, s) =
     (if \<not> inGrid g x y then (g, s)
      else if enemyAt (pl_enemies g) x y
      then (g\<lparr>pl_enemies := fst (enemyLoop (length (pl_enemies g)) x y (pl_enemies g))\<rparr>, s)
      else if clearable g x y then (updateGridTile x y pathwayData g, s + 5)
      else (g, s))"
proof (cases "pl_currentLevel g")
  case None
  then show ?thesis by (simp add: tileStep_def inGrid_def)
next
  case (Some l)
  show ?thesis
  proof (cases "inGrid g x y")
    case False
    then show ?thesis using Some by (auto simp: tileStep_def inGrid_def)
  next
    case True
    then have b: "\<not> (y < 0 \<or> lv_height l \<le> y \<or> x < 0 \<or> lv_width l \<le> x)"
      using Some by (auto simp: inGrid_def)
    show ?thesis
    proof (cases "enemyAt (pl_enemies g) x y")
      case hit: True
      then have "snd (enemyLoop (length (pl_enemies g)) x y (pl_enemies g))"
        by (simp add: enemyLoop_enemyAt)
      then show ?thesis using Some True b hit
        by (simp add: tileStep_def case_prod_beta)
    next
      case nohit: False
      then have "\<not> snd (enemyLoop (length (pl_enemies g)) x y (pl_enemies g))"
        by (simp add: enemyLoop_enemyAt)
      then show ?thesis using Some True b nohit
        by (simp add: tileStep_def case_prod_beta clearable_def pathwayData_def
            split: option.split)
    qed
  qed
qed

lemma getTileAt_enemies: "getTileAt (g\<lparr>pl_enemies := es\<rparr>) x y = getTileAt g x y"
  by (simp add: getTileAt_def)

lemma shape_enemies: "shape (g\<lparr>pl_enemies := es\<rparr>) = shape g"
  by (simp add: shape_def)

lemma tileStep_frame:
  "shape (fst (tileStep x y (g, s))) = shape g
   \<and> positions (fst (tileStep x y (g, s))) = positions g
   \<and> player (fst (tileStep x y (g, s))) = player g
   \<and> uiCalls (fst (tileStep x y (g, s))) = uiCalls g"
  by (simp add: tileStep_eq updateGridTile_frame shape_enemies positions_def
      enemyLoop_positions)

lemma tileStep_tile_other:
  "(x', y') \<noteq> (x, y) \<Longrightarrow> getTileAt (fst (tileStep x y (g, s))) x' y' = getTileAt g x' y'"
  by (simp add: tileStep_eq updateGridTile_other getTileAt_enemies)

lemma tileStep_tile_own:
  "getTileAt (fst (tileStep x y (g, s))) x y =
     (if clearable g x y then map_option (mergeTile pathwayData) (getTileAt g x y)
      else getTileAt g x y)"
proof (cases "getTileAt g x y")
  case None
  then show ?thesis by (simp add: tileStep_eq getTileAt_enemies clearable_def)
next
  case (Some t)
  then show ?thesis
    by (auto simp: tileStep_eq getTileAt_enemies updateGridTile_own clearable_def)
qed

lemma tileStep_score:
  "snd (tileStep x y (g, s)) = s + (if clearable g x y then 5 else 0)"
  by (auto simp: tileStep_eq clearable_def)

lemma tileStep_enemies_length:
  "length (pl_enemies (fst (tileStep x y (g, s)))) = length (pl_enemies g)"
  by (simp add: tileStep_eq updateGridTile_frame enemyLoop_length)

lemma tileStep_enemy:
  assumes "j < length (pl_enemies g)"
  shows "pl_enemies (fst (tileStep x y (g, s))) ! j =
     (if inGrid g x y \<and> e_x (pl_enemies g ! j) = x \<and> e_y (pl_enemies g ! j) = y
         \<and> (\<forall>k. j < k \<and> k < length (pl_enemies g) \<longrightarrow>
                \<not> (e_x (pl_enemies g ! k) = x \<and> e_y (pl_enemies g ! k) = y))
      then takeDamage 5 (pl_enemies g ! j) else pl_enemies g ! j)"
proof -
  have at: "e_x (pl_enemies g ! j) = x \<and> e_y (pl_enemies g ! j) = y \<Longrightarrow> enemyAt (pl_enemies g) x y"
    using assms by (auto simp: enemyAt_def list_ex_iff)
  show ?thesis
    using assms at
    by (auto simp: tileStep_eq updateGridTile_frame enemyLoop_nth)
qed

lemma inGrid_shape: "shape g' = shape g \<Longrightarrow> inGrid g' x y = inGrid g x y"
proof (cases "pl_currentLevel g")
  case None
  assume "shape g' = shape g"
  then have "pl_currentLevel g' = None" using None by (simp add: shape_def)
  then show ?thesis using None by (simp add: inGrid_def)
next
  case (Some l)
  assume a: "shape g' = shape g"
  then obtain l' where l': "pl_currentLevel g' = Some l'" using Some
    by (cases "pl_currentLevel g'") (simp_all add: shape_def)
  from a Some l' have "lv_width l' = lv_width l \<and> lv_height l' = lv_height l"
    by (simp add: shape_def)
  then show ?thesis using Some l' by (simp add: inGrid_def)
qed

lemma clearable_cong:
  "shape g' = shape g \<Longrightarrow> positions g' = positions g \<Longrightarrow>
   getTileAt g' x y = getTileAt g x y \<Longrightarrow> clearable g' x y = clearable g x y"
  using inGrid_shape [of g' g x y] by (simp add: clearable_def enemyAt_positions)

lemma struck_cong:
  "shape g' = shape g \<Longrightarrow> positions g' = positions g \<Longrightarrow> struck g' j = struck g j"
  using inGrid_shape [of g' g] by (simp add: struck_def)

lemma in_set_drop_nth:
  "(x \<in> set (drop n xs)) = (\<exists>i. n \<le> i \<and> i < length xs \<and> xs ! i = x)"
proof
  assume "x \<in> set (drop n xs)"
  then obtain k where k: "k < length xs - n" "drop n xs ! k = x"
    by (auto simp: in_set_conv_nth)
  then have "n \<le> n + k \<and> n + k < length xs \<and> xs ! (n + k) = x" by simp
  then show "\<exists>i. n \<le> i \<and> i < length xs \<and> xs ! i = x" by blast
next
  assume "\<exists>i. n \<le> i \<and> i < length xs \<and> xs ! i = x"
  then obtain i where i: "n \<le> i" "i < length xs" "xs ! i = x" by blast
  then have "i - n < length (drop n xs) \<and> drop n xs ! (i - n) = x" by simp
  then show "x \<in> set (drop n xs)" by (metis nth_mem)
qed

lemma tileStep_enemy_struck:
  assumes "j < length (pl_enemies g)"
  shows "pl_enemies (fst (tileStep x y (g, s))) ! j =
     (if positions g ! j = (x, y) \<and> struck g j
      then takeDamage 5 (pl_enemies g ! j) else pl_enemies g ! j)"
proof -
  have p: "positions g ! j = (e_x (pl_enemies g ! j), e_y (pl_enemies g ! j))"
    using assms by (simp add: positions_def)
  have l: "(positions g ! j \<notin> set (drop (Suc j) (positions g))) =
        (\<forall>k. j < k \<and> k < length (pl_enemies g) \<longrightarrow>
                \<not> (e_x (pl_enemies g ! k) = e_x (pl_enemies g ! j)
                    \<and> e_y (pl_enemies g ! k) = e_y (pl_enemies g ! j)))"
    unfolding in_set_drop_nth p by (auto simp: positions_def Suc_le_eq)
  show ?thesis
    unfolding tileStep_enemy [OF assms] struck_def l using p by auto
qed

subsection \<open>The column loop\<close>

lemma colLoop_frame:
  "shape (fst (colLoop x maxX y gs)) = shape (fst gs)
   \<and> positions (fst (colLoop x maxX y gs)) = positions (fst gs)
   \<and> player (fst (colLoop x maxX y gs)) = player (fst gs)
   \<and> uiCalls (fst (colLoop x maxX y gs)) = uiCalls (fst gs)
   \<and> length (pl_enemies (fst (colLoop x maxX y gs))) = length (pl_enemies (fst gs))"
proof (induction x maxX y gs rule: colLoop.induct)
  case (1 x maxX y gs)
  show ?case
  proof (cases "x \<le> maxX")
    case True
    have step: "colLoop x maxX y gs = colLoop (x + 1) maxX y (tileStep x y gs)"
      using True by (subst colLoop.simps) simp
    show ?thesis
      unfolding step using "1.IH" [OF True]
        tileStep_frame [of x y "fst gs" "snd gs"] tileStep_enemies_length [of x y "fst gs" "snd gs"]
      by simp
  next
    case False
    then have base: "colLoop x maxX y gs = gs" by (subst colLoop.simps) simp
    show ?thesis unfolding base by simp
  qed
qed

lemma colLoop_tile:
  "getTileAt (fst (colLoop x0 maxX y' gs)) x y =
     (if y' = y \<and> x0 \<le> x \<and> x \<le> maxX \<and> clearable (fst gs) x y
      then map_option (mergeTile pathwayData) (getTileAt (fst gs) x y)
      else getTileAt (fst gs) x y)"
proof (induction x0 maxX y' gs rule: colLoop.induct)
  case (1 x0 maxX y' gs)
  show ?case
  proof (cases "x0 \<le> maxX")
    case False
    then have base: "colLoop x0 maxX y' gs = gs" by (subst colLoop.simps) simp
    show ?thesis unfolding base using False by auto
  next
    case True
    define gs1 where "gs1 = tileStep x0 y' gs"
    have step: "colLoop x0 maxX y' gs = colLoop (x0 + 1) maxX y' gs1"
      using True unfolding gs1_def by (subst colLoop.simps) simp
    have fr: "shape (fst gs1) = shape (fst gs)" "positions (fst gs1) = positions (fst gs)"
      unfolding gs1_def using tileStep_frame [of x0 y' "fst gs" "snd gs"] by simp_all
    have ih: "getTileAt (fst (colLoop (x0 + 1) maxX y' gs1)) x y =
        (if y' = y \<and> x0 + 1 \<le> x \<and> x \<le> maxX \<and> clearable (fst gs1) x y
         then map_option (mergeTile pathwayData) (getTileAt (fst gs1) x y)
         else getTileAt (fst gs1) x y)"
      using "1.IH" [OF True] unfolding gs1_def .
    show ?thesis
    proof (cases "(x, y) = (x0, y')")
      case True
      then have own: "getTileAt (fst gs1) x y =
          (if clearable (fst gs) x y then map_option (mergeTile pathwayData) (getTileAt (fst gs) x y)
           else getTileAt (fst gs) x y)"
        unfolding gs1_def using tileStep_tile_own [of x0 y' "fst gs" "snd gs"] by simp
      show ?thesis unfolding step ih using True own \<open>x0 \<le> maxX\<close> by simp
    next
      case False
      then have other: "getTileAt (fst gs1) x y = getTileAt (fst gs) x y"
        unfolding gs1_def using tileStep_tile_other [of x y x0 y' "fst gs" "snd gs"] by simp
      have c: "clearable (fst gs1) x y = clearable (fst gs) x y"
        using clearable_cong [OF fr other] .
      show ?thesis unfolding step ih other c using False by auto
    qed
  qed
qed

lemma colLoop_enemy:
  assumes "j < length (pl_enemies (fst gs))"
  shows "pl_enemies (fst (colLoop x0 maxX y gs)) ! j =
     (if x0 \<le> fst (positions (fst gs) ! j) \<and> fst (positions (fst gs) ! j) \<le> maxX
         \<and> snd (positions (fst gs) ! j) = y \<and> struck (fst gs) j
      then takeDamage 5 (pl_enemies (fst gs) ! j) else pl_enemies (fst gs) ! j)"
  using assms
proof (induction x0 maxX y gs rule: colLoop.induct)
  case (1 x0 maxX y gs)
  show ?case
  proof (cases "x0 \<le> maxX")
    case False
    then have base: "colLoop x0 maxX y gs = gs" by (subst colLoop.simps) simp
    show ?thesis unfolding base using False by auto
  next
    case True
    define gs1 where "gs1 = tileStep x0 y gs"
    have step: "colLoop x0 maxX y gs = colLoop (x0 + 1) maxX y gs1"
      using True unfolding gs1_def by (subst colLoop.simps) simp
    have fr: "shape (fst gs1) = shape (fst gs)" "positions (fst gs1) = positions (fst gs)"
      unfolding gs1_def using tileStep_frame [of x0 y "fst gs" "snd gs"] by simp_all
    have len: "j < length (pl_enemies (fst gs1))"
      unfolding gs1_def using "1.prems" tileStep_enemies_length [of x0 y "fst gs" "snd gs"] by simp
    have st: "struck (fst gs1) j = struck (fst gs) j"
      using struck_cong [OF fr] .
    have one: "pl_enemies (fst gs1) ! j =
        (if positions (fst gs) ! j = (x0, y) \<and> struck (fst gs) j
         then takeDamage 5 (pl_enemies (fst gs) ! j) else pl_enemies (fst gs) ! j)"
      unfolding gs1_def using tileStep_enemy_struck [OF "1.prems", of x0 y "snd gs"] by simp
    have ih: "pl_enemies (fst (colLoop (x0 + 1) maxX y gs1)) ! j =
        (if x0 + 1 \<le> fst (positions (fst gs) ! j) \<and> fst (positions (fst gs) ! j) \<le> maxX
            \<and> snd (positions (fst gs) ! j) = y \<and> struck (fst gs) j
         then takeDamage 5 (pl_enemies (fst gs1) ! j) else pl_enemies (fst gs1) ! j)"
      using "1.IH" [OF True] len unfolding gs1_def [symmetric] fr st by simp
    obtain px py where p: "positions (fst gs) ! j = (px, py)" by (cases "positions (fst gs) ! j")
    show ?thesis unfolding step ih one p using True by auto
  qed
qed

lemma colLoop_score:
  "snd (colLoop x0 maxX y gs) =
     snd gs + 5 * int (card {x. x0 \<le> x \<and> x \<le> maxX \<and> clearable (fst gs) x y})"
proof (induction x0 maxX y gs rule: colLoop.induct)
  case (1 x0 maxX y gs)
  show ?case
  proof (cases "x0 \<le> maxX")
    case False
    then have base: "colLoop x0 maxX y gs = gs" by (subst colLoop.simps) simp
    have e: "{x. x0 \<le> x \<and> x \<le> maxX \<and> clearable (fst gs) x y} = {}" using False by auto
    show ?thesis unfolding base e by simp
  next
    case True
    define gs1 where "gs1 = tileStep x0 y gs"
    have step: "colLoop x0 maxX y gs = colLoop (x0 + 1) maxX y gs1"
      using True unfolding gs1_def by (subst colLoop.simps) simp
    have fr: "shape (fst gs1) = shape (fst gs)" "positions (fst gs1) = positions (fst gs)"
      unfolding gs1_def using tileStep_frame [of x0 y "fst gs" "snd gs"] by simp_all
    have sc: "snd gs1 = snd gs + (if clearable (fst gs) x0 y then 5 else 0)"
      unfolding gs1_def using tileStep_score [of x0 y "fst gs" "snd gs"] by simp
    have same: "\<And>x. x0 + 1 \<le> x \<Longrightarrow> clearable (fst gs1) x y = clearable (fst gs) x y"
    proof -
      fix x :: int
      assume "x0 + 1 \<le> x"
      then have "(x, y) \<noteq> (x0, y)" by simp
      then have "getTileAt (fst gs1) x y = getTileAt (fst gs) x y"
        unfolding gs1_def using tileStep_tile_other [of x y x0 y "fst gs" "snd gs"] by simp
      then show "clearable (fst gs1) x y = clearable (fst gs) x y"
        using clearable_cong [OF fr] by simp
    qed
    define rest where "rest = {x. x0 + 1 \<le> x \<and> x \<le> maxX \<and> clearable (fst gs) x y}"
    have rest1: "{x. x0 + 1 \<le> x \<and> x \<le> maxX \<and> clearable (fst gs1) x y} = rest"
      unfolding rest_def using same by auto
    have fin: "finite rest"
      unfolding rest_def by (rule finite_subset [of _ "{x0 + 1..maxX}"]) auto
    have notin: "x0 \<notin> rest" unfolding rest_def by simp
    have split: "{x. x0 \<le> x \<and> x \<le> maxX \<and> clearable (fst gs) x y} =
        (if clearable (fst gs) x0 y then insert x0 rest else rest)"
      unfolding rest_def using True by (auto simp: order_le_less)
    have ih: "snd (colLoop (x0 + 1) maxX y gs1) = snd gs1 + 5 * int (card rest)"
      using "1.IH" [OF True] unfolding gs1_def [symmetric] rest1 .
    show ?thesis unfolding step ih sc split using fin notin by simp
  qed
qed

subsection \<open>The row loop\<close>

lemma rowLoop_frame:
  "shape (fst (rowLoop y maxY minX maxX gs)) = shape (fst gs)
   \<and> positions (fst (rowLoop y maxY minX maxX gs)) = positions (fst gs)
   \<and> player (fst (rowLoop y maxY minX maxX gs)) = player (fst gs)
   \<and> uiCalls (fst (rowLoop y maxY minX maxX gs)) = uiCalls (fst gs)
   \<and> length (pl_enemies (fst (rowLoop y maxY minX maxX gs))) = length (pl_enemies (fst gs))"
proof (induction y maxY minX maxX gs rule: rowLoop.induct)
  case (1 y maxY minX maxX gs)
  show ?case
  proof (cases "y \<le> maxY")
    case True
    have step: "rowLoop y maxY minX maxX gs =
        rowLoop (y + 1) maxY minX maxX (colLoop minX maxX y gs)"
      using True by (subst rowLoop.simps) simp
    show ?thesis
      unfolding step using "1.IH" [OF True] colLoop_frame [of minX maxX y gs] by simp
  next
    case False
    then have base: "rowLoop y maxY minX maxX gs = gs" by (subst rowLoop.simps) simp
    show ?thesis unfolding base by simp
  qed
qed

lemma rowLoop_tile:
  "getTileAt (fst (rowLoop y0 maxY minX maxX gs)) x y =
     (if y0 \<le> y \<and> y \<le> maxY \<and> minX \<le> x \<and> x \<le> maxX \<and> clearable (fst gs) x y
      then map_option (mergeTile pathwayData) (getTileAt (fst gs) x y)
      else getTileAt (fst gs) x y)"
proof (induction y0 maxY minX maxX gs rule: rowLoop.induct)
  case (1 y0 maxY minX maxX gs)
  show ?case
  proof (cases "y0 \<le> maxY")
    case False
    then have base: "rowLoop y0 maxY minX maxX gs = gs" by (subst rowLoop.simps) simp
    show ?thesis unfolding base using False by auto
  next
    case True
    define gs1 where "gs1 = colLoop minX maxX y0 gs"
    have step: "rowLoop y0 maxY minX maxX gs = rowLoop (y0 + 1) maxY minX maxX gs1"
      using True unfolding gs1_def by (subst rowLoop.simps) simp
    have fr: "shape (fst gs1) = shape (fst gs)" "positions (fst gs1) = positions (fst gs)"
      unfolding gs1_def using colLoop_frame [of minX maxX y0 gs] by simp_all
    have row: "getTileAt (fst gs1) x y =
        (if y0 = y \<and> minX \<le> x \<and> x \<le> maxX \<and> clearable (fst gs) x y
         then map_option (mergeTile pathwayData) (getTileAt (fst gs) x y)
         else getTileAt (fst gs) x y)"
      unfolding gs1_def by (rule colLoop_tile)
    have ih: "getTileAt (fst (rowLoop (y0 + 1) maxY minX maxX gs1)) x y =
        (if y0 + 1 \<le> y \<and> y \<le> maxY \<and> minX \<le> x \<and> x \<le> maxX \<and> clearable (fst gs1) x y
         then map_option (mergeTile pathwayData) (getTileAt (fst gs1) x y)
         else getTileAt (fst gs1) x y)"
      using "1.IH" [OF True] unfolding gs1_def .
    show ?thesis
    proof (cases "y = y0")
      case True
      show ?thesis unfolding step ih row using True \<open>y0 \<le> maxY\<close> by simp
    next
      case False
      then have other: "getTileAt (fst gs1) x y = getTileAt (fst gs) x y"
        unfolding row by simp
      have c: "clearable (fst gs1) x y = clearable (fst gs) x y"
        using clearable_cong [OF fr other] .
      show ?thesis unfolding step ih other c using False by auto
    qed
  qed
qed

lemma rowLoop_enemy:
  assumes "j < length (pl_enemies (fst gs))"
  shows "pl_enemies (fst (rowLoop y0 maxY minX maxX gs)) ! j =
     (if y0 \<le> snd (positions (fst gs) ! j) \<and> snd (positions (fst gs) ! j) \<le> maxY
         \<and> minX \<le> fst (positions (fst gs) ! j) \<and> fst (positions (fst gs) ! j) \<le> maxX
         \<and> struck (fst gs) j
      then takeDamage 5 (pl_enemies (fst gs) ! j) else pl_enemies (fst gs) ! j)"
  using assms
proof (induction y0 maxY minX maxX gs rule: rowLoop.induct)
  case (1 y0 maxY minX maxX gs)
  show ?case
  proof (cases "y0 \<le> maxY")
    case False
    then have base: "rowLoop y0 maxY minX maxX gs = gs" by (subst rowLoop.simps) simp
    show ?thesis unfolding base using False by auto
  next
    case True
    define gs1 where "gs1 = colLoop minX maxX y0 gs"
    have step: "rowLoop y0 maxY minX maxX gs = rowLoop (y0 + 1) maxY minX maxX gs1"
      using True unfolding gs1_def by (subst rowLoop.simps) simp
    have fr: "shape (fst gs1) = shape (fst gs)" "positions (fst gs1) = positions (fst gs)"
      unfolding gs1_def using colLoop_frame [of minX maxX y0 gs] by simp_all
    have len: "j < length (pl_enemies (fst gs1))"
      unfolding gs1_def using "1.prems" colLoop_frame [of minX maxX y0 gs] by simp
    have st: "struck (fst gs1) j = struck (fst gs) j"
      using struck_cong [OF fr] .
    have one: "pl_enemies (fst gs1) ! j =
        (if minX \<le> fst (positions (fst gs) ! j) \<and> fst (positions (fst gs) ! j) \<le> maxX
            \<and> snd (positions (fst gs) ! j) = y0 \<and> struck (fst gs) j
         then takeDamage 5 (pl_enemies (fst gs) ! j) else pl_enemies (fst gs) ! j)"
      unfolding gs1_def using colLoop_enemy [OF "1.prems"] .
    have ih: "pl_enemies (fst (rowLoop (y0 + 1) maxY minX maxX gs1)) ! j =
        (if y0 + 1 \<le> snd (positions (fst gs) ! j) \<and> snd (positions (fst gs) ! j) \<le> maxY
            \<and> minX \<le> fst (positions (fst gs) ! j) \<and> fst (positions (fst gs) ! j) \<le> maxX
            \<and> struck (fst gs) j
         then takeDamage 5 (pl_enemies (fst gs1) ! j) else pl_enemies (fst gs1) ! j)"
      using "1.IH" [OF True] len unfolding gs1_def [symmetric] fr st by simp
    obtain px py where p: "positions (fst gs) ! j = (px, py)" by (cases "positions (fst gs) ! j")
    show ?thesis unfolding step ih one p using True by auto
  qed
qed

lemma rowLoop_score:
  "snd (rowLoop y0 maxY minX maxX gs) =
     snd gs + 5 * int (card {(x, y). y0 \<le> y \<and> y \<le> maxY \<and> minX \<le> x \<and> x \<le> maxX
                                   \<and> clearable (fst gs) x y})"
proof (induction y0 maxY minX maxX gs rule: rowLoop.induct)
  case (1 y0 maxY minX maxX gs)
  show ?case
  proof (cases "y0 \<le> maxY")
    case False
    then have base: "rowLoop y0 maxY minX maxX gs = gs" by (subst rowLoop.simps) simp
    have e: "{(x, y). y0 \<le> y \<and> y \<le> maxY \<and> minX \<le> x \<and> x \<le> maxX \<and> clearable (fst gs) x y} = {}"
      using False by auto
    show ?thesis unfolding base e by simp
  next
    case True
    define gs1 where "gs1 = colLoop minX maxX y0 gs"
    have step: "rowLoop y0 maxY minX maxX gs = rowLoop (y0 + 1) maxY minX maxX gs1"
      using True unfolding gs1_def by (subst rowLoop.simps) simp
    have fr: "shape (fst gs1) = shape (fst gs)" "positions (fst gs1) = positions (fst gs)"
      unfolding gs1_def using colLoop_frame [of minX maxX y0 gs] by simp_all
    define row where "row = {x. minX \<le> x \<and> x \<le> maxX \<and> clearable (fst gs) x y0}"
    have sc: "snd gs1 = snd gs + 5 * int (card row)"
      unfolding gs1_def row_def by (rule colLoop_score)
    have same: "\<And>x y. y0 + 1 \<le> y \<Longrightarrow> clearable (fst gs1) x y = clearable (fst gs) x y"
    proof -
      fix x y :: int
      assume "y0 + 1 \<le> y"
      then have "y0 \<noteq> y" by simp
      then have "getTileAt (fst gs1) x y = getTileAt (fst gs) x y"
        unfolding gs1_def colLoop_tile by simp
      then show "clearable (fst gs1) x y = clearable (fst gs) x y"
        using clearable_cong [OF fr] by simp
    qed
    define rest where
      "rest = {(x, y). y0 + 1 \<le> y \<and> y \<le> maxY \<and> minX \<le> x \<and> x \<le> maxX \<and> clearable (fst gs) x y}"
    have rest1: "{(x, y). y0 + 1 \<le> y \<and> y \<le> maxY \<and> minX \<le> x \<and> x \<le> maxX
                    \<and> clearable (fst gs1) x y} = rest"
      unfolding rest_def using same by auto
    have finrow: "finite row"
      unfolding row_def by (rule finite_subset [of _ "{minX..maxX}"]) auto
    have finrest: "finite rest"
      unfolding rest_def
      by (rule finite_subset [of _ "{minX..maxX} \<times> {y0 + 1..maxY}"]) auto
    have disj: "(\<lambda>x. (x, y0)) ` row \<inter> rest = {}"
      unfolding rest_def by auto
    have split: "{(x, y). y0 \<le> y \<and> y \<le> maxY \<and> minX \<le> x \<and> x \<le> maxX \<and> clearable (fst gs) x y} =
        (\<lambda>x. (x, y0)) ` row \<union> rest"
      unfolding rest_def row_def using True by (auto simp: order_le_less)
    have cardrow: "card ((\<lambda>x. (x, y0)) ` row) = card row"
      by (rule card_image) (simp add: inj_on_def)
    have total: "card ((\<lambda>x. (x, y0)) ` row \<union> rest) = card row + card rest"
      using card_Un_disjoint [OF _ finrest disj] finrow cardrow by simp
    have ih: "snd (rowLoop (y0 + 1) maxY minX maxX gs1) = snd gs1 + 5 * int (card rest)"
      using "1.IH" [OF True] unfolding gs1_def [symmetric] rest1 .
    show ?thesis unfolding step ih sc split total by simp
  qed
qed

subsection \<open>The whole range action\<close>

lemma clearable_no_level: "pl_currentLevel g = None \<Longrightarrow> \<not> clearable g x y"
  by (simp add: clearable_def inGrid_def)

lemma struck_no_level: "pl_currentLevel g = None \<Longrightarrow> \<not> struck g j"
  by (simp add: struck_def inGrid_def)

lemma handleRangeAction_loops:
  "pl_currentLevel g = Some l \<Longrightarrow>
   handleRangeAction r cost actionType g =
     (let gs = rowLoop (min (startY r) (endY r)) (max (startY r) (endY r))
                 (min (startX r) (endX r)) (max (startX r) (endX r)) (g, 0)
      in if snd gs > 0
         then ui (ShowMessage (ClearedNodes (snd gs div 5)) 1000) (addScore (snd gs) (fst gs))
         else fst gs)"
  by (simp add: handleRangeAction_def Let_def case_prod_beta)

lemma handleRangeAction_tile:
  "getTileAt (handleRangeAction r cost actionType g) x y =
     (if inRange r x y \<and> clearable g x y
      then map_option (mergeTile pathwayData) (getTileAt g x y)
      else getTileAt g x y)"
proof (cases "pl_currentLevel g")
  case None
  then show ?thesis by (simp add: handleRangeAction_def clearable_no_level)
next
  case (Some l)
  have lvl: "\<And>g' s m. getTileAt (ui m (addScore s g')) x y = getTileAt g' x y"
    by (simp add: getTileAt_def ui_def addScore_def)
  show ?thesis
    unfolding handleRangeAction_loops [OF Some] Let_def
    by (auto simp: lvl rowLoop_tile inRange_def)
qed

lemma handleRangeAction_score:
  "p_score (player (handleRangeAction r cost actionType g)) =
     p_score (player g) + 5 * int (card {(x, y). inRange r x y \<and> clearable g x y})"
proof (cases "pl_currentLevel g")
  case None
  then have e: "{(x, y). inRange r x y \<and> clearable g x y} = {}"
    by (simp add: clearable_no_level)
  show ?thesis unfolding e using None by (simp add: handleRangeAction_def)
next
  case (Some l)
  define n where "n = card {(x, y). inRange r x y \<and> clearable g x y}"
  have sc: "snd (rowLoop (min (startY r) (endY r)) (max (startY r) (endY r))
                 (min (startX r) (endX r)) (max (startX r) (endX r)) (g, 0)) = 5 * int n"
  proof -
    have eq: "{(x, y). min (startY r) (endY r) \<le> y \<and> y \<le> max (startY r) (endY r)
                 \<and> min (startX r) (endX r) \<le> x \<and> x \<le> max (startX r) (endX r)
                 \<and> clearable (fst (g, 0::int)) x y} =
              {(x, y). inRange r x y \<and> clearable g x y}"
      by (auto simp: inRange_def)
    show ?thesis unfolding rowLoop_score eq n_def by simp
  qed
  have pl: "player (fst (rowLoop (min (startY r) (endY r)) (max (startY r) (endY r))
                 (min (startX r) (endX r)) (max (startX r) (endX r)) (g, 0))) = player g"
    using rowLoop_frame [of _ _ _ _ "(g, 0)"] by simp
  show ?thesis
    unfolding handleRangeAction_loops [OF Some] Let_def sc n_def [symmetric]
    using pl by (simp add: ui_def addScore_def)
qed

lemma struck_lastAtTile:
  assumes "j < length (pl_enemies g)"
  shows "struck g j =
     (inGrid g (e_x (pl_enemies g ! j)) (e_y (pl_enemies g ! j)) \<and> lastAtTile (pl_enemies g) j)"
proof -
  have p: "positions g ! j = (e_x (pl_enemies g ! j), e_y (pl_enemies g ! j))"
    using assms by (simp add: positions_def)
  have d: "drop (Suc j) (positions g) = map (\<lambda>e. (e_x e, e_y e)) (drop (Suc j) (pl_enemies g))"
    by (simp add: positions_def drop_map)
  show ?thesis
    unfolding struck_def lastAtTile_def d p
    by (auto simp: enemyAt_def list_ex_iff image_iff)
qed

lemma handleRangeAction_enemy:
  assumes "j < length (pl_enemies g)"
  shows "pl_enemies (handleRangeAction r cost actionType g) ! j =
     (if inRange r (e_x (pl_enemies g ! j)) (e_y (pl_enemies g ! j)) \<and> struck g j
      then takeDamage 5 (pl_enemies g ! j) else pl_enemies g ! j)"
proof (cases "pl_currentLevel g")
  case None
  then show ?thesis by (simp add: handleRangeAction_def struck_no_level)
next
  case (Some l)
  have p: "positions g ! j = (e_x (pl_enemies g ! j), e_y (pl_enemies g ! j))"
    using assms by (simp add: positions_def)
  have en: "\<And>g' s m. pl_enemies (ui m (addScore s g')) = pl_enemies g'"
    by (simp add: ui_def addScore_def)
  have a: "j < length (pl_enemies (fst (g, 0::int)))" using assms by simp
  show ?thesis
    unfolding handleRangeAction_loops [OF Some] Let_def
    using rowLoop_enemy [OF a] p by (auto simp: en inRange_def)
qed

lemma handleRangeAction_roster_length:
  "length (pl_enemies (handleRangeAction r cost actionType g)) = length (pl_enemies g)"
proof (cases "pl_currentLevel g")
  case None
  then show ?thesis by (simp add: handleRangeAction_def)
next
  case (Some l)
  show ?thesis
    unfolding handleRangeAction_loops [OF Some] Let_def
    using rowLoop_frame [of _ _ _ _ "(g, 0)"] by (simp add: ui_def addScore_def)
qed

text \<open>
  In a rectangular level the coordinates inside \<open>width\<close> and \<open>height\<close> are exactly
  those that have a tile.
\<close>

lemma rectangular_inGrid:
  assumes "pl_currentLevel g = Some l" and "rectangular l"
  shows "inGrid g x y = (getTileAt g x y \<noteq> None)"
proof (cases "0 \<le> y \<and> y < lv_height l")
  case False
  then show ?thesis using assms by (auto simp: inGrid_def getTileAt_def rectangular_def)
next
  case True
  then have iy: "nat y < length (lv_tiles l)" using assms(2) by (simp add: rectangular_def)
  then have "lv_tiles l ! nat y \<in> set (lv_tiles l)" by simp
  then have len: "length (lv_tiles l ! nat y) = nat (lv_width l)"
    using assms(2) by (simp add: rectangular_def list_all_iff)
  show ?thesis using assms True len by (auto simp: inGrid_def getTileAt_def rectangular_def)
qed

subsection \<open>Claims about the range action\<close>

lemmas example_defs =
  rowGame_def crowdedGame_def playingGame_def newStateManager_def newInputHandler_def
  somePlayer_def corruptedRow_def pathwayTile_def corruptedTile_def barrierTile_def
  reversedRange_def chaser_def registerActionListener_def

lemmas range_defs =
  handleRangeAction_def rowLoop.simps colLoop.simps tileStep_def getTileAt_def
  updateGridTile_def mergeTile_def addScore_def ui_def takeDamage_def Let_def

text \<open>
  C2. For a tile inside the range of an applied range action (Delete or Change) that lies in
  the grid and has no enemy on it: a \<open>corrupted\<close> tile becomes \<open>{char: '.', type:
  'pathway'}\<close> and is one of the cleared tiles, a \<open>barrier\<close> tile is left as it was, and
  the player's score grows by 5 for every cleared tile of the range.
\<close>

theorem delete_clears_corrupted_keeps_barrier:
  assumes "inRange r x y" and "inGrid g x y" and "\<not> enemyAt (pl_enemies g) x y"
    and "getTileAt g x y = Some t"
  shows "(t_type t = ''corrupted'' \<longrightarrow>
            getTileAt (handleRangeAction r cost actionType g) x y =
              Some (t\<lparr>t_char := ''.'', t_type := ''pathway''\<rparr>))
       \<and> (t_type t = ''barrier'' \<longrightarrow>
            getTileAt (handleRangeAction r cost actionType g) x y = Some t)
       \<and> clearable g x y = (t_type t = ''corrupted'')
       \<and> p_score (player (handleRangeAction r cost actionType g)) =
            p_score (player g) + 5 * int (card {(a, b). inRange r a b \<and> clearable g a b})"
proof -
  have c: "clearable g x y = (t_type t = ''corrupted'')"
    using assms by (simp add: clearable_def)
  have m: "mergeTile pathwayData t = t\<lparr>t_char := ''.'', t_type := ''pathway''\<rparr>"
    by (simp add: mergeTile_def pathwayData_def)
  have tile: "getTileAt (handleRangeAction r cost actionType g) x y =
      (if t_type t = ''corrupted'' then Some (t\<lparr>t_char := ''.'', t_type := ''pathway''\<rparr>)
       else Some t)"
    unfolding handleRangeAction_tile using assms c m by simp
  show ?thesis
    using tile c handleRangeAction_score [of r cost actionType g] by simp
qed

theorem delete_clears_corrupted_keeps_barrier_witness:
  "getTileAt (handleRangeAction reversedRange 8 ''DELETE_RANGE'' rowGame) 2 0 =
     Some (corruptedTile\<lparr>t_char := ''.'', t_type := ''pathway''\<rparr>)
   \<and> getTileAt (handleRangeAction reversedRange 8 ''DELETE_RANGE'' rowGame) 1 0 = Some barrierTile
   \<and> p_score (player rowGame) = 0
   \<and> p_score (player (handleRangeAction reversedRange 8 ''DELETE_RANGE'' rowGame)) = 15"
proof -
  have r2: "inRange reversedRange 2 0" and r1: "inRange reversedRange 1 0"
    by (simp_all add: inRange_def reversedRange_def)
  have g2: "inGrid rowGame 2 0" and g1: "inGrid rowGame 1 0"
    by (simp_all add: inGrid_def example_defs)
  have e2: "\<not> enemyAt (pl_enemies rowGame) 2 0" and e1: "\<not> enemyAt (pl_enemies rowGame) 1 0"
    by (simp_all add: enemyAt_def example_defs)
  have t2: "getTileAt rowGame 2 0 = Some corruptedTile"
    and t1: "getTileAt rowGame 1 0 = Some barrierTile"
    by (simp_all add: getTileAt_def example_defs)
  have k2: "t_type corruptedTile = ''corrupted''" and k1: "t_type barrierTile = ''barrier''"
    by (simp_all add: corruptedTile_def barrierTile_def)
  have score: "p_score (player rowGame) = 0
      \<and> p_score (player (handleRangeAction reversedRange 8 ''DELETE_RANGE'' rowGame)) = 15"
    by (simp add: example_defs range_defs)
  show ?thesis
    using delete_clears_corrupted_keeps_barrier [OF r2 g2 e2 t2, of 8 "''DELETE_RANGE''"]
      delete_clears_corrupted_keeps_barrier [OF r1 g1 e1 t1, of 8 "''DELETE_RANGE''"]
      k2 k1 score
    by simp
qed

text \<open>
  C3, as amended. For every enemy of the roster that stands on a tile of the grid inside
  the range: if it is the last enemy of the roster on that tile, the action applies
  \<open>takeDamage(5)\<close> to it, otherwise it is left as it was; the tile under it is not
  modified; no enemy is added or removed by the action.
\<close>

theorem range_hits_last_enemy_on_tile:
  assumes "j < length (pl_enemies g)"
    and "inRange r (e_x (pl_enemies g ! j)) (e_y (pl_enemies g ! j))"
    and "inGrid g (e_x (pl_enemies g ! j)) (e_y (pl_enemies g ! j))"
  shows "pl_enemies (handleRangeAction r cost actionType g) ! j =
           (if lastAtTile (pl_enemies g) j then takeDamage 5 (pl_enemies g ! j)
            else pl_enemies g ! j)
       \<and> getTileAt (handleRangeAction r cost actionType g)
             (e_x (pl_enemies g ! j)) (e_y (pl_enemies g ! j)) =
           getTileAt g (e_x (pl_enemies g ! j)) (e_y (pl_enemies g ! j))
       \<and> length (pl_enemies (handleRangeAction r cost actionType g)) = length (pl_enemies g)"
proof -
  have occupied: "enemyAt (pl_enemies g) (e_x (pl_enemies g ! j)) (e_y (pl_enemies g ! j))"
    using assms(1) by (auto simp: enemyAt_def list_ex_iff)
  then have nc: "\<not> clearable g (e_x (pl_enemies g ! j)) (e_y (pl_enemies g ! j))"
    by (simp add: clearable_def)
  show ?thesis
    using assms nc
    by (simp add: handleRangeAction_enemy handleRangeAction_tile
        handleRangeAction_roster_length struck_lastAtTile)
qed

theorem range_hits_last_enemy_on_tile_witness:
  "pl_enemies (handleRangeAction reversedRange 8 ''DELETE_RANGE'' crowdedGame) ! 1 =
     takeDamage 5 (pl_enemies crowdedGame ! 1)
   \<and> e_health (takeDamage 5 (pl_enemies crowdedGame ! 1)) = 0
   \<and> getTileAt (handleRangeAction reversedRange 8 ''DELETE_RANGE'' crowdedGame) 3 0 =
       Some corruptedTile"
proof -
  have j: "1 < length (pl_enemies crowdedGame)" by (simp add: example_defs)
  have p: "e_x (pl_enemies crowdedGame ! 1) = 3 \<and> e_y (pl_enemies crowdedGame ! 1) = 0"
    by (simp add: example_defs)
  have r: "inRange reversedRange (e_x (pl_enemies crowdedGame ! 1)) (e_y (pl_enemies crowdedGame ! 1))"
    unfolding p [THEN conjunct1] p [THEN conjunct2] by (simp add: inRange_def reversedRange_def)
  have g: "inGrid crowdedGame (e_x (pl_enemies crowdedGame ! 1)) (e_y (pl_enemies crowdedGame ! 1))"
    unfolding p [THEN conjunct1] p [THEN conjunct2] by (simp add: inGrid_def example_defs)
  have l: "lastAtTile (pl_enemies crowdedGame) 1"
    by (simp add: lastAtTile_def enemyAt_def example_defs)
  have t: "getTileAt crowdedGame 3 0 = Some corruptedTile"
    by (simp add: getTileAt_def example_defs)
  have h: "e_health (takeDamage 5 (pl_enemies crowdedGame ! 1)) = 0"
    by (simp add: example_defs takeDamage_def Let_def)
  show ?thesis
    using range_hits_last_enemy_on_tile [OF j r g, of 8 "''DELETE_RANGE''"] l t h p
    by simp
qed

text \<open>
  C3 as stated fails when two enemies share a tile: both chasers stand on the tile
  \<open>(3, 0)\<close> of the range with health 2, and only the second one is damaged.
\<close>

theorem range_spares_first_enemy_on_shared_tile:
  "e_x (pl_enemies crowdedGame ! 0) = 3 \<and> e_y (pl_enemies crowdedGame ! 0) = 0
   \<and> e_health (pl_enemies crowdedGame ! 0) = 2
   \<and> e_state (pl_enemies crowdedGame ! 0) = ''chasing''
   \<and> inRange reversedRange 3 0 \<and> inGrid crowdedGame 3 0
   \<and> pl_enemies (handleRangeAction reversedRange 8 ''DELETE_RANGE'' crowdedGame) ! 0 =
       pl_enemies crowdedGame ! 0
   \<and> e_health (pl_enemies (handleRangeAction reversedRange 8 ''DELETE_RANGE'' crowdedGame) ! 1) = 0"
  by (simp add: example_defs range_defs inRange_def inGrid_def)

text \<open>
  C9. The range action depends on the two corners only through the minimum and maximum
  on each axis: giving the corners in the opposite order, or exchanging them on one axis
  only, gives the same resulting game (grid, roster, score and messages).
\<close>

theorem range_action_order_independent:
  "handleRangeAction \<lparr>startX = a, startY = b, endX = c, endY = d\<rparr> cost actionType g =
     handleRangeAction \<lparr>startX = c, startY = d, endX = a, endY = b\<rparr> cost actionType g
   \<and> handleRangeAction \<lparr>startX = a, startY = b, endX = c, endY = d\<rparr> cost actionType g =
     handleRangeAction \<lparr>startX = c, startY = b, endX = a, endY = d\<rparr> cost actionType g
   \<and> handleRangeAction \<lparr>startX = a, startY = b, endX = c, endY = d\<rparr> cost actionType g =
     handleRangeAction \<lparr>startX = a, startY = d, endX = c, endY = b\<rparr> cost actionType g"
  by (cases "pl_currentLevel g")
    (simp_all add: handleRangeAction_def Let_def min.commute max.commute)

theorem range_action_order_independent_witness:
  "handleRangeAction \<lparr>startX = 4, startY = 0, endX = 1, endY = 0\<rparr> 8 ''DELETE_RANGE'' crowdedGame =
     handleRangeAction \<lparr>startX = 1, startY = 0, endX = 4, endY = 0\<rparr> 8 ''DELETE_RANGE'' crowdedGame"
  using range_action_order_independent [of 4 0 1 0 8 "''DELETE_RANGE''" crowdedGame]
  by simp

subsection \<open>The numeric prefix stays well formed\<close>

text \<open>
  Every key handled in navigation mode keeps the prefix empty or a digit string that starts
  with 1 to 9, so the counts of the queued commands are numbers of at least 1.
\<close>

lemma validPrefix_append:
  "validPrefix p \<Longrightarrow> length key = 1 \<Longrightarrow> isDigit (hd key) \<Longrightarrow>
   (p = [] \<longrightarrow> hd key \<in> set ''123456789'') \<Longrightarrow> validPrefix (p @ key)"
  by (cases key; cases p) (auto simp: validPrefix_def)

lemma isKey19_digit: "isKey19 key \<Longrightarrow> length key = 1 \<and> isDigit (hd key) \<and> hd key \<in> set ''123456789''"
  by (auto simp: isKey19_def isDigit_def)

lemma handleNormalMode_keeps_validPrefix:
  assumes "validPrefix (ih_numericPrefix (inputHandler g))"
    and "handleNormalMode key g = Inr g'"
  shows "validPrefix (ih_numericPrefix (inputHandler g'))"
proof (cases "key = ''Escape''")
  case True
  then show ?thesis using assms(2)
    by (auto simp: handleNormalMode_def Let_def onInput_def resetBuffer_def queueCommand_def
        validPrefix_def split: option.splits sum.splits)
next
  case esc: False
  show ?thesis
  proof (cases "isKey19 key \<and> ih_commandBuffer (inputHandler g) = []")
    case True
    then have "g' = onInput (\<lambda>h. h\<lparr>ih_numericPrefix := ih_numericPrefix h @ key\<rparr>) g"
      using assms(2) esc by (simp add: handleNormalMode_def Let_def)
    then show ?thesis
      using validPrefix_append [OF assms(1), of key] isKey19_digit [of key] True
      by (simp add: onInput_def)
  next
    case n19: False
    show ?thesis
    proof (cases "isKey0 key \<and> ih_commandBuffer (inputHandler g) = []
                  \<and> ih_numericPrefix (inputHandler g) \<noteq> []")
      case True
      then have "g' = onInput (\<lambda>h. h\<lparr>ih_numericPrefix := ih_numericPrefix h @ key\<rparr>) g"
        using assms(2) esc n19 by (simp add: handleNormalMode_def Let_def)
      moreover have "length key = 1 \<and> isDigit (hd key)"
        using True by (simp add: isKey0_def isDigit_def)
      ultimately show ?thesis
        using validPrefix_append [OF assms(1), of key] True
        by (simp add: onInput_def)
    next
      case n0: False
      have "ih_numericPrefix (inputHandler g') = []
            \<or> ih_numericPrefix (inputHandler g') = ih_numericPrefix (inputHandler g)"
        using assms(2) esc n19 n0
        by (auto simp: handleNormalMode_def Let_def onInput_def resetBuffer_def queueCommand_def
            split: if_splits option.splits prod.splits)
      then show ?thesis using assms(1) by (auto simp: validPrefix_def)
    qed
  qed
qed

subsection \<open>Claims about the state manager\<close>

lemma getProperty_knownStates:
  "(getProperty knownStates name = None) =
     (name \<notin> set [''MENU'', ''LOADING'', ''PLAYING'', ''PAUSED'', ''GAME_OVER'', ''LEVEL_COMPLETE'']
      \<and> name \<notin> set objectPrototypeNames)"
  by (simp add: getProperty_def knownStates_def)

text \<open>
  C8 fails on the code: \<open>'constructor'\<close> names none of the six modes, yet
  \<open>this.states['constructor']\<close> is the function inherited from \<open>Object.prototype\<close> and is
  truthy. From the state manager as the constructor leaves it, the request reports nothing
  and does not fall back: the current state becomes that function, which has no \<open>enter\<close>,
  so nothing is entered and no mode is active. A name that is neither a mode nor
  inherited, such as \<open>'SHOP'\<close>, is reported once and makes Menu the active mode.
\<close>

theorem switchTo_inherited_name_skips_fallback:
  "knownStates ''constructor'' = None
   \<and> managerState freshGame = (None, None, [])
   \<and> map_sum id managerState (switchTo ''constructor'' noParams freshGame) =
       Inr (Some ''constructor'', Some (Inherited ''constructor''), [])
   \<and> map_sum id uiCalls (switchTo ''constructor'' noParams freshGame) = Inr []
   \<and> map_sum id managerState (switchTo ''SHOP'' noParams freshGame) =
       Inr (Some ''MENU'', Some MENU, [UnknownState ''SHOP''])"
  by (simp add: switchTo_def getProperty_def objectPrototypeNames_def knownStates_def
      freshGame_def newStateManager_def managerState_def mode_defs Let_def)

text \<open>
  C1 fails on the code: \<open>PlayingState.exit\<close>, run by the transition to Paused, empties the
  roster, and \<open>PlayingState.enter\<close>, run by the transition back, empties it again. From a
  Playing game with one chaser, 12 seconds on the clock and the cursor at \<open>(3, 2)\<close>, the
  pause listener followed by the unpause listener ends in Playing with the clock and the
  cursor as they were and an empty roster.
\<close>

theorem pause_resume_clears_roster:
  "pl_enemies playingGame = [chaser]
   \<and> (case runListener PlayingPause playingGame of
        Inl e \<Rightarrow> None
      | Inr paused \<Rightarrow>
         (case runListener PausedUnpause paused of
            Inl e \<Rightarrow> None
          | Inr resumed \<Rightarrow>
              Some (sm_currentState paused, pl_enemies paused, sm_currentState resumed,
                    pl_enemies resumed, pl_elapsedTime resumed,
                    p_x (player resumed), p_y (player resumed))))
     = Some (Some PAUSED, [], Some PLAYING, [], 12, 3, 2)"
  by (simp add: switchTo_def getProperty_def playingGame_def newStateManager_def
      knownStates_def Let_def mode_defs noParams_def somePlayer_def)

subsection \<open>Claims about the keystroke parser\<close>

text \<open>
  C5. In navigation mode, for an operator key \<open>k\<close> of \<open>d\<close>, \<open>c\<close>, \<open>y\<close>: with an empty
  buffer the key becomes the buffer and nothing else changes (no command is queued); with
  the buffer holding that same key, exactly one command is queued, the operator of \<open>k\<close>
  with motion \<open>LINE\<close> and count \<open>max(1, parseInt(numericPrefix))\<close> (1 without a prefix),
  and the buffer and the prefix are cleared.
\<close>

theorem doubled_operator_emits_line:
  assumes "k \<in> set [''d'', ''c'', ''y'']"
    and "validPrefix (ih_numericPrefix (inputHandler g))"
  shows "(ih_commandBuffer (inputHandler g) = [] \<longrightarrow>
            handleNormalMode k g =
              Inr (g\<lparr>inputHandler := (inputHandler g)\<lparr>ih_commandBuffer := k\<rparr>\<rparr>))
       \<and> (ih_commandBuffer (inputHandler g) = k \<longrightarrow>
            handleNormalMode k g =
              Inr (g\<lparr>inputHandler := (inputHandler g)\<lparr>
                     ih_commandQueue := ih_commandQueue (inputHandler g) @
                       [OPERATOR (if k = ''d'' then ''DELETE''
                                  else if k = ''c'' then ''CHANGE'' else ''YANK'')
                          ''LINE''
                          (case parseInt (ih_numericPrefix (inputHandler g)) of
                             Finite n \<Rightarrow> Finite (max 1 n)
                           | NaN \<Rightarrow> Finite 1)],
                     ih_commandBuffer := [], ih_numericPrefix := []\<rparr>\<rparr>))"
proof -
  have op: "isOperatorKey k" using assms(1) by (simp add: isOperatorKey_def)
  have ty: "the (typeMap k) =
      (if k = ''d'' then ''DELETE'' else if k = ''c'' then ''CHANGE'' else ''YANK'')"
    using assms(1) by (auto simp: typeMap_def)
  show ?thesis
    using operator_first [OF op, of g] operator_doubled [OF op, of g]
      count_of_prefix [OF assms(2)] ty
    by simp
qed

theorem doubled_operator_emits_line_witness:
  "map_sum id parserState (handleNormalMode ''d'' countedGame) = Inr ([], ''d'', ''3'')
   \<and> map_sum id parserState (handleNormalMode ''d'' pendingDelete) =
       Inr ([OPERATOR ''DELETE'' ''LINE'' (Finite 3)], [], [])"
proof -
  have k: "''d'' \<in> set [''d'', ''c'', ''y'']" by simp
  have v: "validPrefix (ih_numericPrefix (inputHandler countedGame))"
    "validPrefix (ih_numericPrefix (inputHandler pendingDelete))"
    by (simp_all add: validPrefix_def isDigit_def pendingDelete_def countedGame_def)
  have b: "ih_commandBuffer (inputHandler countedGame) = []"
    "ih_commandBuffer (inputHandler pendingDelete) = ''d''"
    by (simp_all add: pendingDelete_def countedGame_def playingGame_def
        registerActionListener_def newInputHandler_def)
  have n: "parseInt (ih_numericPrefix (inputHandler pendingDelete)) = Finite 3"
    by (simp add: pendingDelete_def countedGame_def parseInt_def isSpace_def isDigit_def
        decimal_def digitValue_def Let_def)
  have q: "parserState countedGame = ([], [], ''3'')"
    "parserState pendingDelete = ([], ''d'', ''3'')"
    by (simp_all add: parserState_def pendingDelete_def countedGame_def playingGame_def
        registerActionListener_def newInputHandler_def)
  show ?thesis
    using doubled_operator_emits_line [OF k v(1)] doubled_operator_emits_line [OF k v(2)]
      b n q
    by (simp add: parserState_def)
qed

text \<open>
  C6 fails on the code: with \<open>3d\<close> typed (prefix \<open>3\<close>, pending operator \<open>d\<close>), the key
  \<open>c\<close> matches nothing, and the handler leaves the prefix and the pending operator as they
  were and queues nothing; the reset branch is guarded by the buffer not being one of
  \<open>d\<close>, \<open>c\<close>, \<open>y\<close>, \<open>r\<close>. The same holds for \<open>Enter\<close> while a replace is armed.
\<close>

theorem mismatched_key_leaves_buffer:
  "parserState pendingDelete = ([], ''d'', ''3'')
   \<and> map_sum id parserState (handleNormalMode ''c'' pendingDelete) = Inr ([], ''d'', ''3'')
   \<and> map_sum id parserState
        (handleNormalMode ''Enter''
           (countedGame\<lparr>inputHandler := (inputHandler countedGame)\<lparr>ih_commandBuffer := ''r''\<rparr>\<rparr>))
       = Inr ([], ''r'', ''3'')"
  by (simp add: handleNormalMode_def parserState_def pendingDelete_def countedGame_def
      playingGame_def registerActionListener_def newInputHandler_def isKey19_def isKey0_def
      isKey09_def isDigit_def isOperatorKey_def motionMap_def simpleCommandMap_def Let_def)

subsection \<open>Claims about the motion resolver\<close>

text \<open>
  C4. With a grid, an operator with the Line motion and count \<open>n\<close> requests an action for
  the range of all columns \<open>0\<close> to \<open>width - 1\<close> and the rows from the cursor row \<open>y\<close> to
  \<open>min(y + n - 1, height - 1)\<close>, at the cost \<open>10 * n * width\<close>; the result is what
  \<open>requestAction\<close> returns for it.
\<close>

theorem line_motion_spans_count_rows:
  assumes "p_currentLevelGrid p = Some grid"
  shows "handleDeleteOrChangeMotion h ''LINE'' n baseActionType p =
     Inr (requestAction h p (baseActionType @ ''_RANGE'')
            \<lparr>startX = 0, startY = p_y p, endX = lv_width grid - 1,
             endY = min (p_y p + n - 1) (lv_height grid - 1)\<rparr>
            (10 * n * lv_width grid))"
  using assms by (simp add: handleDeleteOrChangeMotion_def motionSpan_def Let_def)

theorem line_motion_spans_count_rows_witness:
  "handleDeleteOrChangeMotion (specHelpers isBlank) ''LINE'' 2 ''DELETE'' streamPlayer =
     Inr (Some \<lparr>a_type = ''DELETE_RANGE'',
                a_target = \<lparr>startX = 0, startY = 2, endX = 19, endY = 3\<rparr>, a_cost = 400\<rparr>,
          streamPlayer)
   \<and> handleDeleteOrChangeMotion (specHelpers isBlank) ''LINE'' 7 ''CHANGE'' streamPlayer =
     Inr (Some \<lparr>a_type = ''CHANGE_RANGE'',
                a_target = \<lparr>startX = 0, startY = 2, endX = 19, endY = 4\<rparr>, a_cost = 1400\<rparr>,
          streamPlayer)"
proof -
  have g: "p_currentLevelGrid streamPlayer = Some streamInit" by (simp add: streamPlayer_def)
  show ?thesis
    using line_motion_spans_count_rows [OF g, of "specHelpers isBlank" 2 "''DELETE''"]
      line_motion_spans_count_rows [OF g, of "specHelpers isBlank" 7 "''CHANGE''"]
    by (simp add: specHelpers_def streamPlayer_def streamInit_def)
qed

lemma searchBelow_nearest:
  assumes "s \<le> m" and "P s" and "\<forall>k. s < k \<and> k \<le> m \<longrightarrow> \<not> P k"
  shows "searchBelow P (Suc m) = Some s"
  using assms
proof (induction m)
  case 0
  then show ?case by simp
next
  case (Suc m)
  show ?case
  proof (cases "s = Suc m")
    case True
    then show ?thesis using Suc.prems(2) by simp
  next
    case False
    then have le: "s \<le> m" using Suc.prems(1) by simp
    have np: "\<not> P (Suc m)" using Suc.prems(3) False Suc.prems(1) by simp
    have "searchBelow P (Suc m) = Some s"
      using Suc.IH [OF le Suc.prems(2)] Suc.prems(3) by simp
    then show ?thesis using np by simp
  qed
qed

lemma findPreviousWordStart_spec:
  assumes "0 \<le> x" and "int s \<le> x" and "wordStartsAt ws (rowOf p y) s"
    and "\<forall>k. s < k \<and> k \<le> nat x \<longrightarrow> \<not> wordStartsAt ws (rowOf p y) k"
  shows "findPreviousWordStart (specHelpers ws) p x y = Some \<lparr>pos_x = int s, pos_y = y\<rparr>"
proof -
  have le: "s \<le> nat x" using assms(1,2) by simp
  show ?thesis
    using assms(1) searchBelow_nearest [OF le assms(3,4)]
    by (simp add: specHelpers_def atColumn_def)
qed

lemma wordBackwardLoop_at_word_start:
  assumes "0 \<le> x" and "wordStartsAt ws (rowOf p y) (nat x)"
  shows "wordBackwardLoop (specHelpers ws) p n \<lparr>pos_x = x, pos_y = y\<rparr> =
           Some \<lparr>pos_x = x, pos_y = y\<rparr>"
proof (induction n)
  case 0
  show ?case by simp
next
  case (Suc n)
  have "findPreviousWordStart (specHelpers ws) p x y = Some \<lparr>pos_x = int (nat x), pos_y = y\<rparr>"
    using assms by (intro findPreviousWordStart_spec) auto
  then show ?case using Suc assms(1) by simp
qed

text \<open>
  C7. With a grid and the cursor on the first character of a word, resolving an operator
  with the WordBackward motion yields null for every count, and the player, score
  included, is as before; the resolver does not touch the grid. For comparison, with the
  cursor further inside or after a word and count 1, an action is requested for the
  columns from the start of that word to the column before the cursor.
\<close>

theorem word_backward_from_word_start_is_null:
  assumes "p_currentLevelGrid p = Some grid" and "0 \<le> p_x p"
  shows "(wordStartsAt ws (rowOf p (p_y p)) (nat (p_x p)) \<longrightarrow>
            handleDeleteOrChangeMotion (specHelpers ws) ''WORD_BACKWARD'' n base p =
              Inr (None, p))
       \<and> (\<forall>s. int s < p_x p \<and> wordStartsAt ws (rowOf p (p_y p)) s
               \<and> (\<forall>k. s < k \<and> k \<le> nat (p_x p) \<longrightarrow> \<not> wordStartsAt ws (rowOf p (p_y p)) k) \<longrightarrow>
            handleDeleteOrChangeMotion (specHelpers ws) ''WORD_BACKWARD'' 1 base p =
              Inr (Some \<lparr>a_type = base @ ''_RANGE'',
                         a_target = \<lparr>startX = int s, startY = p_y p,
                                     endX = p_x p - 1, endY = p_y p\<rparr>,
                         a_cost = 3 + \<bar>p_x p - 1 - int s\<bar>\<rparr>, p))"
proof (intro conjI impI allI)
  assume w: "wordStartsAt ws (rowOf p (p_y p)) (nat (p_x p))"
  have "motionSpan (specHelpers ws) p grid ''WORD_BACKWARD'' n = Inr None"
    using wordBackwardLoop_at_word_start [OF assms(2) w, of "nat n"]
    by (simp add: motionSpan_def Let_def)
  then show "handleDeleteOrChangeMotion (specHelpers ws) ''WORD_BACKWARD'' n base p = Inr (None, p)"
    using assms(1) by (simp add: handleDeleteOrChangeMotion_def)
next
  fix s
  assume a: "int s < p_x p \<and> wordStartsAt ws (rowOf p (p_y p)) s
       \<and> (\<forall>k. s < k \<and> k \<le> nat (p_x p) \<longrightarrow> \<not> wordStartsAt ws (rowOf p (p_y p)) k)"
  then have le: "int s \<le> p_x p" by simp
  have f: "findPreviousWordStart (specHelpers ws) p (p_x p) (p_y p) =
      Some \<lparr>pos_x = int s, pos_y = p_y p\<rparr>"
    using a by (intro findPreviousWordStart_spec [OF assms(2) le]) simp_all
  have span: "motionSpan (specHelpers ws) p grid ''WORD_BACKWARD'' 1 =
      Inr (Some (\<lparr>startX = int s, startY = p_y p, endX = p_x p - 1, endY = p_y p\<rparr>,
                 3 + \<bar>p_x p - 1 - int s\<bar>))"
    using f a by (simp add: motionSpan_def Let_def)
  have req: "\<And>t c. requestAction (specHelpers ws) p (base @ ''_RANGE'') t c =
      (Some \<lparr>a_type = base @ ''_RANGE'', a_target = t, a_cost = c\<rparr>, p)"
    by (simp add: specHelpers_def)
  show "handleDeleteOrChangeMotion (specHelpers ws) ''WORD_BACKWARD'' 1 base p =
      Inr (Some \<lparr>a_type = base @ ''_RANGE'',
                 a_target = \<lparr>startX = int s, startY = p_y p, endX = p_x p - 1, endY = p_y p\<rparr>,
                 a_cost = 3 + \<bar>p_x p - 1 - int s\<bar>\<rparr>, p)"
    using assms(1) span req by (simp add: handleDeleteOrChangeMotion_def)
qed

theorem word_backward_from_word_start_is_null_witness:
  "wordStartsAt isBlank (rowOf wordPlayer 0) 3 \<and> p_x wordPlayer = 3
   \<and> handleDeleteOrChangeMotion (specHelpers isBlank) ''WORD_BACKWARD'' 1 ''DELETE'' wordPlayer =
       Inr (None, wordPlayer)
   \<and> handleDeleteOrChangeMotion (specHelpers isBlank) ''WORD_BACKWARD'' 2 ''CHANGE'' wordPlayer =
       Inr (None, wordPlayer)
   \<and> handleDeleteOrChangeMotion (specHelpers isBlank) ''WORD_BACKWARD'' 1 ''DELETE''
         (wordPlayer\<lparr>p_x := 4\<rparr>) =
       Inr (Some \<lparr>a_type = ''DELETE_RANGE'',
                  a_target = \<lparr>startX = 3, startY = 0, endX = 3, endY = 0\<rparr>, a_cost = 3\<rparr>,
            wordPlayer\<lparr>p_x := 4\<rparr>)"
proof -
  have g: "p_currentLevelGrid wordPlayer = Some wordsRow"
    "p_currentLevelGrid (wordPlayer\<lparr>p_x := 4\<rparr>) = Some wordsRow"
    by (simp_all add: wordPlayer_def)
  have x: "0 \<le> p_x wordPlayer" "0 \<le> p_x (wordPlayer\<lparr>p_x := 4\<rparr>)"
    by (simp_all add: wordPlayer_def)
  have v: "p_x wordPlayer = 3" "p_y wordPlayer = 0" "p_x (wordPlayer\<lparr>p_x := 4\<rparr>) = 4"
    "p_y (wordPlayer\<lparr>p_x := 4\<rparr>) = 0" "rowOf (wordPlayer\<lparr>p_x := 4\<rparr>) 0 = rowOf wordPlayer 0"
    by (simp_all add: wordPlayer_def rowOf_def)
  have w3: "wordStartsAt isBlank (rowOf wordPlayer 0) 3"
    by (simp add: wordStartsAt_def rowOf_def wordPlayer_def wordsRow_def glyph_def isBlank_def)
  have w4: "\<not> wordStartsAt isBlank (rowOf wordPlayer 0) 4"
    by (simp add: wordStartsAt_def rowOf_def wordPlayer_def wordsRow_def glyph_def isBlank_def)
  have near: "\<forall>k. 3 < k \<and> k \<le> nat 4 \<longrightarrow> \<not> wordStartsAt isBlank (rowOf wordPlayer 0) k"
  proof (intro allI impI)
    fix k :: nat
    assume "3 < k \<and> k \<le> nat 4"
    then have "k = 4" by simp
    then show "\<not> wordStartsAt isBlank (rowOf wordPlayer 0) k" using w4 by simp
  qed
  have a: "handleDeleteOrChangeMotion (specHelpers isBlank) ''WORD_BACKWARD'' 1 ''DELETE'' wordPlayer =
      Inr (None, wordPlayer)"
    using word_backward_from_word_start_is_null [OF g(1) x(1), of isBlank 1 "''DELETE''"] w3 v
    by simp
  have b: "handleDeleteOrChangeMotion (specHelpers isBlank) ''WORD_BACKWARD'' 2 ''CHANGE'' wordPlayer =
      Inr (None, wordPlayer)"
    using word_backward_from_word_start_is_null [OF g(1) x(1), of isBlank 2 "''CHANGE''"] w3 v
    by simp
  have c: "handleDeleteOrChangeMotion (specHelpers isBlank) ''WORD_BACKWARD'' 1 ''DELETE''
         (wordPlayer\<lparr>p_x := 4\<rparr>) =
       Inr (Some \<lparr>a_type = ''DELETE_RANGE'',
                  a_target = \<lparr>startX = 3, startY = 0, endX = 3, endY = 0\<rparr>, a_cost = 3\<rparr>,
            wordPlayer\<lparr>p_x := 4\<rparr>)"
    using word_backward_from_word_start_is_null [OF g(2) x(2), of isBlank 1 "''DELETE''",
        THEN conjunct2, rule_format, of 3] w3 near v
    by simp
  show ?thesis using a b c w3 v(1) by simp
qed

end
